theory Spec2Isabelle
  imports Complex_Main "HOL-Library.Word" "HOL-Library.List_Lexorder"
begin

section \<open>JavaScript values\<close>

text \<open>
  The functions of \<^verbatim>\<open>src/index.js\<close> take and return dynamically typed values, and
  \<^verbatim>\<open>validate\<close> exists to reject the ill-typed ones, so the model keeps the dynamic
  typing: one datatype of values, with the tests the source applies to them
  (truthiness, \<^verbatim>\<open>typeof\<close>, \<^verbatim>\<open>instanceof Uint8Array\<close>, \<^verbatim>\<open>Array.isArray\<close>, property reads).

  \<^item> A number is an IEEE double: a rational, NaN or an infinity. The source does no
    arithmetic on numbers but \<^verbatim>\<open>% 1\<close>, which is exact, so finite numbers are kept as
    rationals (every double is one; \<^verbatim>\<open>-0\<close> and \<^verbatim>\<open>0\<close> are not told apart).
  \<^item> A string is held as the list of its UTF-8 code units, which is what
    \<^verbatim>\<open>TextEncoder.encode\<close> returns for it. Strings with unpaired surrogates, which have
    no UTF-8 form, are not represented.
  \<^item> A content identifier is a value of the type parameter \<open>'c\<close>: the CID class is an
    external collaborator. \<open>JCID\<close> holds exactly the values \<open>v\<close> with
    \<^verbatim>\<open>v.asCID === v\<close>, which are also the values \<^verbatim>\<open>CID.asCID\<close> returns as they are.
  \<^item> An object is the list of its own enumerable properties, in insertion order.
\<close>

type_synonym byte = "8 word"

datatype jsnum = Finite rat | NaN | PosInfinity | NegInfinity

datatype 'c jsval =
    JUndefined
  | JNull
  | JBoolean bool
  | JNumber jsnum
  | JString string
  | JUint8Array "byte list"
  | JCID 'c
  | JArray "'c jsval list"
  | JObject "(string \<times> 'c jsval) list"

text \<open>The two error classes the source throws, with the message.\<close>

datatype error = TypeError string | Error string

fun truthy :: "'c jsval \<Rightarrow> bool" where
  "truthy JUndefined = False"
| "truthy JNull = False"
| "truthy (JBoolean b) = b"
| "truthy (JNumber (Finite q)) = (q \<noteq> 0)"
| "truthy (JNumber NaN) = False"
| "truthy (JNumber PosInfinity) = True"
| "truthy (JNumber NegInfinity) = True"
| "truthy (JString s) = (s \<noteq> [])"
| "truthy (JUint8Array bs) = True"
| "truthy (JCID c) = True"
| "truthy (JArray xs) = True"
| "truthy (JObject kvs) = True"

fun typeof :: "'c jsval \<Rightarrow> string" where
  "typeof JUndefined = ''undefined''"
| "typeof JNull = ''object''"
| "typeof (JBoolean b) = ''boolean''"
| "typeof (JNumber n) = ''number''"
| "typeof (JString s) = ''string''"
| "typeof (JUint8Array bs) = ''object''"
| "typeof (JCID c) = ''object''"
| "typeof (JArray xs) = ''object''"
| "typeof (JObject kvs) = ''object''"

fun isArray :: "'c jsval \<Rightarrow> bool" where
  "isArray (JArray xs) = True"
| "isArray v = False"

fun isUint8Array :: "'c jsval \<Rightarrow> bool" where
  "isUint8Array (JUint8Array bs) = True"
| "isUint8Array v = False"

text \<open>
  \<open>get v k\<close> is the property read \<^verbatim>\<open>v.k\<close> for the five names the source reads
  (\<^verbatim>\<open>Data\<close>, \<^verbatim>\<open>Links\<close>, \<^verbatim>\<open>Hash\<close>, \<^verbatim>\<open>Name\<close>, \<^verbatim>\<open>Tsize\<close>) on a value
  other than \<^verbatim>\<open>null\<close> and \<^verbatim>\<open>undefined\<close>: none of the five is a property of a
  primitive, an array, a byte array or a CID. Reading a property of \<^verbatim>\<open>null\<close> or
  \<^verbatim>\<open>undefined\<close> throws; the functions below test for these two before they read.
\<close>

fun get :: "'c jsval \<Rightarrow> string \<Rightarrow> 'c jsval" where
  "get (JObject kvs) k = (case map_of kvs k of Some v \<Rightarrow> v | None \<Rightarrow> JUndefined)"
| "get v k = JUndefined"

definition textEncoder_encode :: "string \<Rightarrow> byte list" where
  "textEncoder_encode s = map (\<lambda>c. of_nat (of_char c)) s"

section \<open>The comparator\<close>

text \<open>
  \<^verbatim>\<open>linkComparator\<close> (index.js 24-44). \<open>nameBytes a\<close> is \<^verbatim>\<open>abuf\<close>:
  \<^verbatim>\<open>a.Name ? textEncoder.encode(a.Name) : []\<close>. \<^verbatim>\<open>TextEncoder.encode\<close> is modelled on
  strings. The comparator is only called on links whose \<^verbatim>\<open>Name\<close> is a string or
  undefined (in \<^verbatim>\<open>validate\<close> after the check of line 182, in \<^verbatim>\<open>prepare\<close> on the
  results of \<^verbatim>\<open>asLink\<close>); on a truthy \<^verbatim>\<open>Name\<close> of another type the encoder would
  first turn the value into a string, which is not modelled: the last branch of the
  \<^theory_text>\<open>case\<close> is outside the model, and the theorem on the comparator excludes it.

  The loop of lines 35-41 is \<open>scan\<close>: \<open>i\<close> runs up to \<open>len\<close>, and \<open>x\<close>, \<open>y\<close> are
  overwritten with the two bytes at the first index where the buffers differ.
  \<open>sign3 (x, y)\<close> is line 43, \<^verbatim>\<open>x < y ? -1 : y < x ? 1 : 0\<close>.

  The shortcut \<^verbatim>\<open>a === b\<close> of line 25 is left out: values here carry no identity, and
  on one and the same object the rest of the function returns 0 as well
  (\<open>linkComparator_same\<close> below).
\<close>

definition nameBytes :: "'c jsval \<Rightarrow> byte list" where
  "nameBytes a =
     (if truthy (get a ''Name'') then
        (case get a ''Name'' of JString s \<Rightarrow> textEncoder_encode s | _ \<Rightarrow> [])
      else [])"

function scan :: "byte list \<Rightarrow> byte list \<Rightarrow> nat \<Rightarrow> nat \<Rightarrow> nat \<Rightarrow> nat \<Rightarrow> nat \<times> nat" where
  "scan abuf bbuf i len x y =
     (if i < len then
        (if abuf ! i \<noteq> bbuf ! i then (unat (abuf ! i), unat (bbuf ! i))
         else scan abuf bbuf (i + 1) len x y)
      else (x, y))"
  by pat_completeness auto
termination
  by (relation "measure (\<lambda>(abuf, bbuf, i, len, x, y). len - i)") auto

declare scan.simps [simp del]

definition sign3 :: "nat \<times> nat \<Rightarrow> int" where
  "sign3 p = (if fst p < snd p then - 1 else if snd p < fst p then 1 else 0)"

definition compareBytes :: "byte list \<Rightarrow> byte list \<Rightarrow> int" where
  "compareBytes abuf bbuf =
     (let x = length abuf; y = length bbuf
      in sign3 (scan abuf bbuf 0 (min x y) x y))"

definition linkComparator :: "'c jsval \<Rightarrow> 'c jsval \<Rightarrow> int" where
  "linkComparator a b = compareBytes (nameBytes a) (nameBytes b)"

text \<open>
  A link whose \<^verbatim>\<open>Name\<close> is a string or is falsy (undefined, as in a link without a
  name): the links the comparator is called on.
\<close>

definition namedByText :: "'c jsval \<Rightarrow> bool" where
  "namedByText a \<longleftrightarrow> typeof (get a ''Name'') = ''string'' \<or> \<not> truthy (get a ''Name'')"

text \<open>
  The order the specification describes (4.1), written on the two byte sequences from
  its words: scan in lock-step; at the first differing byte the lower byte sorts first;
  with no differing byte in the shared prefix the shorter sequence sorts first; equal
  sequences compare equal.
\<close>

fun spec_order :: "byte list \<Rightarrow> byte list \<Rightarrow> int" where
  "spec_order [] [] = 0"
| "spec_order [] (b # bs) = - 1"
| "spec_order (a # as) [] = 1"
| "spec_order (a # as) (b # bs) =
     (if a = b then spec_order as bs else if a < b then - 1 else 1)"

section \<open>The content identifier class\<close>

text \<open>
  \<^verbatim>\<open>CID\<close> is imported from \<^verbatim>\<open>multiformats\<close> and is taken as a parameter: the three
  operations the source calls on it. \<^verbatim>\<open>CID.parse\<close> and \<^verbatim>\<open>CID.decode\<close> throw on a
  text or on bytes that are no content identifier; \<open>Inl m\<close> is that exception, with its
  message \<open>m\<close>.
\<close>

record 'c cid_class =
  CID_parse :: "string \<Rightarrow> string + 'c"
  CID_decode :: "byte list \<Rightarrow> string + 'c"
  CID_bytes :: "'c \<Rightarrow> byte list"

text \<open>
  \<^verbatim>\<open>CID.asCID(v)\<close>: \<open>v\<close> itself when it is a content identifier, \<^verbatim>\<open>null\<close> otherwise.
  \<^verbatim>\<open>v.asCID !== v\<close> of line 178 is \<open>\<not> isCID v\<close>.
\<close>

fun asCID :: "'c jsval \<Rightarrow> 'c option" where
  "asCID (JCID c) = Some c"
| "asCID v = None"

fun isCID :: "'c jsval \<Rightarrow> bool" where
  "isCID (JCID c) = True"
| "isCID v = False"

section \<open>prepare\<close>

text \<open>A \<^verbatim>\<open>map\<close> whose callback may throw: the first exception leaves it.\<close>

fun mapE :: "('a \<Rightarrow> error + 'b) \<Rightarrow> 'a list \<Rightarrow> error + 'b list" where
  "mapE f [] = Inr []"
| "mapE f (x # xs) =
     (case f x of
        Inl e \<Rightarrow> Inl e
      | Inr y \<Rightarrow> (case mapE f xs of Inl e \<Rightarrow> Inl e | Inr ys \<Rightarrow> Inr (y # ys)))"

text \<open>
  The exception of the engine for a property read on \<^verbatim>\<open>null\<close> or \<^verbatim>\<open>undefined\<close>:
  a \<^verbatim>\<open>TypeError\<close> too; its message depends on the engine.
\<close>

definition nullRead :: error where
  "nullRead = TypeError ''Cannot read properties of null or undefined''"

text \<open>
  \<^verbatim>\<open>asLink\<close> (index.js 58-93). \<open>linkCID\<close> is lines 61-78: what \<^verbatim>\<open>pbl.Hash\<close> holds
  after them, \<open>None\<close> when it was not set.
\<close>

definition linkCID :: "'c cid_class \<Rightarrow> 'c jsval \<Rightarrow> error + 'c option" where
  "linkCID CID h =
     (if truthy h then
        (case asCID h of
           Some c \<Rightarrow> Inr (Some c)
         | None \<Rightarrow>
            (case h of
               JString s \<Rightarrow>
                 (case CID_parse CID s of
                    Inl m \<Rightarrow> Inl (TypeError (''Invalid DAG-PB form: '' @ m))
                  | Inr c \<Rightarrow> Inr (Some c))
             | JUint8Array bs \<Rightarrow>
                 (case CID_decode CID bs of
                    Inl m \<Rightarrow> Inl (TypeError (''Invalid DAG-PB form: '' @ m))
                  | Inr c \<Rightarrow> Inr (Some c))
             | _ \<Rightarrow> Inr None))
      else Inr None)"

definition asLink :: "'c cid_class \<Rightarrow> 'c jsval \<Rightarrow> error + 'c jsval" where
  "asLink CID link =
     (if link = JNull \<or> link = JUndefined then Inl nullRead
      else
        (case linkCID CID (get link ''Hash'') of
           Inl e \<Rightarrow> Inl e
         | Inr None \<Rightarrow> Inl (TypeError ''Invalid DAG-PB form'')
         | Inr (Some c) \<Rightarrow>
             Inr (JObject
               ([(''Hash'', JCID c)]
                @ (if typeof (get link ''Name'') = ''string''
                   then [(''Name'', get link ''Name'')] else [])
                @ (if typeof (get link ''Tsize'') = ''number''
                   then [(''Tsize'', get link ''Tsize'')] else [])))))"

text \<open>
  \<^verbatim>\<open>pbn.Links.sort(linkComparator)\<close>. \<^verbatim>\<open>Array.prototype.sort\<close> is a stable sort
  (ECMAScript 2019), and the order it leaves under a consistent comparator is fixed by
  that: each element stands after the elements that compare lower and after the equal
  ones that stood before it. That is insertion from the right end.
\<close>

fun insertLink :: "'c jsval \<Rightarrow> 'c jsval list \<Rightarrow> 'c jsval list" where
  "insertLink x [] = [x]"
| "insertLink x (y # ys) =
     (if linkComparator x y = 1 then y # insertLink x ys else x # y # ys)"

definition sortLinks :: "'c jsval list \<Rightarrow> 'c jsval list" where
  "sortLinks xs = foldr insertLink xs []"

text \<open>
  \<^verbatim>\<open>prepare\<close> (index.js 98-130). \<open>shorthand\<close> is lines 99-105, \<open>prepareData\<close> lines
  114-120 (the properties set on \<^verbatim>\<open>pbn\<close>), \<open>prepareLinks\<close> lines 122-127.
\<close>

definition shorthand :: "'c jsval \<Rightarrow> 'c jsval" where
  "shorthand node =
     (let node1 = (if isUint8Array node
                   then JObject [(''Data'', node), (''Links'', JArray [])] else node)
      in case node1 of
           JString s \<Rightarrow>
             JObject [(''Data'', JUint8Array (textEncoder_encode s)), (''Links'', JArray [])]
         | _ \<Rightarrow> node1)"

definition prepareData :: "'c jsval \<Rightarrow> (string \<times> 'c jsval) list" where
  "prepareData d =
     (if truthy d then
        (case d of
           JString s \<Rightarrow> [(''Data'', JUint8Array (textEncoder_encode s))]
         | JUint8Array bs \<Rightarrow> [(''Data'', d)]
         | _ \<Rightarrow> [])
      else [])"

definition prepareLinks :: "'c cid_class \<Rightarrow> 'c jsval \<Rightarrow> error + 'c jsval list" where
  "prepareLinks CID ls =
     (case ls of
        JArray xs \<Rightarrow>
          (if xs \<noteq> [] then
             (case mapE (asLink CID) xs of Inl e \<Rightarrow> Inl e | Inr ys \<Rightarrow> Inr (sortLinks ys))
           else Inr [])
      | _ \<Rightarrow> Inr [])"

definition prepare :: "'c cid_class \<Rightarrow> 'c jsval \<Rightarrow> error + 'c jsval" where
  "prepare CID node0 =
     (let node = shorthand node0 in
      if typeof node \<noteq> ''object'' \<or> isArray node then Inl (TypeError ''Invalid DAG-PB form'')
      else if node = JNull then Inl nullRead
      else
        (case prepareLinks CID (get node ''Links'') of
           Inl e \<Rightarrow> Inl e
         | Inr links \<Rightarrow>
             Inr (JObject (prepareData (get node ''Data'') @ [(''Links'', JArray links)]))))"

section \<open>validate\<close>

definition pbNodeProperties :: "string list" where
  "pbNodeProperties = [''Data'', ''Links'']"

definition pbLinkProperties :: "string list" where
  "pbLinkProperties = [''Hash'', ''Name'', ''Tsize'']"

text \<open>
  \<^verbatim>\<open>hasOnlyProperties\<close> (index.js 51-53) goes through \<^verbatim>\<open>Object.keys\<close>. It is called with
  the two lists above, on values that are truthy, of type \<^verbatim>\<open>object\<close> and no array: an
  object, whose keys are its properties; a byte array, whose keys are its indices, none of
  them a listed name; a CID, which has own properties (\<^verbatim>\<open>code\<close>, \<^verbatim>\<open>version\<close>,
  \<^verbatim>\<open>multihash\<close>, \<^verbatim>\<open>bytes\<close>) that are not listed. The other equations are never
  reached (a string and an array have their indices as keys, a number and a boolean none).
\<close>

fun hasOnlyProperties :: "'c jsval \<Rightarrow> string list \<Rightarrow> bool" where
  "hasOnlyProperties (JObject kvs) properties =
     (\<not> list_ex (\<lambda>p. p \<notin> set properties) (map fst kvs))"
| "hasOnlyProperties (JUint8Array bs) properties = (bs = [])"
| "hasOnlyProperties (JCID c) properties = False"
| "hasOnlyProperties (JArray xs) properties = (xs = [])"
| "hasOnlyProperties (JString s) properties = (s = [])"
| "hasOnlyProperties v properties = True"

text \<open>
  \<^verbatim>\<open>x % 1\<close>: the remainder keeps the sign of \<open>x\<close>; it is NaN for NaN and the
  infinities.
\<close>

fun rem1 :: "jsnum \<Rightarrow> jsnum" where
  "rem1 (Finite q) = Finite (q - of_int (if 0 \<le> q then \<lfloor>q\<rfloor> else \<lceil>q\<rceil>))"
| "rem1 x = NaN"

text \<open>\<^verbatim>\<open>link.Tsize % 1 !== 0\<close> (applied after \<^verbatim>\<open>typeof link.Tsize === 'number'\<close>).\<close>

fun fractional :: "'c jsval \<Rightarrow> bool" where
  "fractional (JNumber x) = (rem1 x \<noteq> Finite 0)"
| "fractional v = True"

text \<open>
  The body of the loop of \<^verbatim>\<open>validate\<close> (index.js 165-192) for one link; \<open>prev\<close> is
  \<^verbatim>\<open>node.Links[i - 1]\<close> when \<^verbatim>\<open>i > 0\<close>.
\<close>

definition validateLink :: "'c jsval \<Rightarrow> 'c jsval option \<Rightarrow> error + unit" where
  "validateLink link prev =
     (if \<not> truthy link \<or> typeof link \<noteq> ''object'' \<or> isArray link then
        Inl (TypeError ''Invalid DAG-PB form (bad link object)'')
      else if \<not> hasOnlyProperties link pbLinkProperties then
        Inl (TypeError ''Invalid DAG-PB form (extraneous properties on link object)'')
      else if \<not> truthy (get link ''Hash'') then
        Inl (TypeError ''Invalid DAG-PB form (link must have a Hash)'')
      else if \<not> isCID (get link ''Hash'') then
        Inl (TypeError ''Invalid DAG-PB form (link Hash must be a CID)'')
      else if get link ''Name'' \<noteq> JUndefined \<and> typeof (get link ''Name'') \<noteq> ''string'' then
        Inl (TypeError ''Invalid DAG-PB form (link Name must be a string)'')
      else if get link ''Tsize'' \<noteq> JUndefined
              \<and> (typeof (get link ''Tsize'') \<noteq> ''number'' \<or> fractional (get link ''Tsize'')) then
        Inl (TypeError ''Invalid DAG-PB form (link Tsize must be an integer)'')
      else if (case prev of Some p \<Rightarrow> linkComparator link p = - 1 | None \<Rightarrow> False) then
        Inl (TypeError ''Invalid DAG-PB form (links must be sorted by Name bytes)'')
      else Inr ())"

fun validateLinks :: "'c jsval option \<Rightarrow> 'c jsval list \<Rightarrow> error + unit" where
  "validateLinks prev [] = Inr ()"
| "validateLinks prev (link # rest) =
     (case validateLink link prev of
        Inl e \<Rightarrow> Inl e
      | Inr u \<Rightarrow> validateLinks (Some link) rest)"

definition validate :: "'c jsval \<Rightarrow> error + unit" where
  "validate node =
     (if \<not> truthy node \<or> typeof node \<noteq> ''object'' \<or> isArray node then
        Inl (TypeError ''Invalid DAG-PB form'')
      else if \<not> hasOnlyProperties node pbNodeProperties then
        Inl (TypeError ''Invalid DAG-PB form (extraneous properties)'')
      else if get node ''Data'' \<noteq> JUndefined \<and> \<not> isUint8Array (get node ''Data'') then
        Inl (TypeError ''Invalid DAG-PB form (Data must be a Uint8Array)'')
      else
        (case get node ''Links'' of
           JArray links \<Rightarrow> validateLinks None links
         | _ \<Rightarrow> Inl (TypeError ''Invalid DAG-PB form (Links must be an array)'')))"

text \<open>The TypeError of line 191.\<close>

definition sortedMessage :: error where
  "sortedMessage = TypeError ''Invalid DAG-PB form (links must be sorted by Name bytes)''"

section \<open>The wire codec\<close>

text \<open>
  \<^verbatim>\<open>encodeNode\<close> and \<^verbatim>\<open>decodeNode\<close> are imported from \<^verbatim>\<open>./pb-encode.js\<close> and
  \<^verbatim>\<open>./pb-decode.js\<close>, which are not among the source files. What they exchange
  with \<^verbatim>\<open>index.js\<close> is typed there (lines 16-17): a \<^verbatim>\<open>PBNode\<close> with an optional
  \<^verbatim>\<open>Data\<close> and an array of \<^verbatim>\<open>PBLink\<close>, each with an optional \<^verbatim>\<open>Hash\<close> (bytes),
  \<^verbatim>\<open>Name\<close> and \<^verbatim>\<open>Tsize\<close>. \<^verbatim>\<open>Tsize\<close> is a number there; \<^verbatim>\<open>encode\<close> only ever
  fills it with a number that has no fractional part, and it is an integer here. The
  two functions are modelled from sections 4.4 and 6 of the specification: a message is
  a sequence of fields, each a tag (field number and wire type) and a value, a varint or
  a length and that many bytes.
\<close>

record pblink =
  pbl_Hash :: "byte list option"
  pbl_Name :: "string option"
  pbl_Tsize :: "int option"

record pbnode =
  pbn_Data :: "byte list option"
  pbn_Links :: "pblink list"

function encodeVarint :: "nat \<Rightarrow> byte list" where
  \<comment> \<open>Modelled from the spec: the varint framing of 4.4, missing with pb-encode.js.
      Seven bits to a byte, low bits first, the high bit set on every byte but the last.\<close>
  "encodeVarint n =
     (if n < 128 then [of_nat n] else of_nat (n mod 128 + 128) # encodeVarint (n div 128))"
  by pat_completeness auto
termination
  by (relation "measure (\<lambda>n. n)") auto

declare encodeVarint.simps [simp del]

fun decodeVarint :: "byte list \<Rightarrow> (nat \<times> byte list) option" where
  \<comment> \<open>Modelled from the spec: the varint framing of 4.4, missing with pb-decode.js.
      The value and the bytes after it; \<open>None\<close> when the bytes end inside the varint.\<close>
  "decodeVarint [] = None"
| "decodeVarint (b # bs) =
     (if b < 128 then Some (unat b, bs)
      else
        (case decodeVarint bs of
           None \<Rightarrow> None
         | Some (n, rest) \<Rightarrow> Some (unat b - 128 + 128 * n, rest)))"

definition tsizeToVarint :: "int \<Rightarrow> nat" where
  \<comment> \<open>Modelled from the spec: the integer a varint field carries (4.4, 6), missing with
      pb-encode.js. The specification gives the field no width and has every integer,
      \<^verbatim>\<open>-5\<close> included, come back unchanged (3, 8), while a varint is a natural number:
      the integers are numbered by the naturals one to one, 0, -1, 1, -2, 2 and so on (the
      zigzag numbering of the protobuf framing), and the varint is that number.\<close>
  "tsizeToVarint t = (if 0 \<le> t then nat (2 * t) else nat (- (2 * t) - 1))"

definition varintToTsize :: "nat \<Rightarrow> int" where
  \<comment> \<open>Modelled from the spec: the reading of the same field, missing with pb-decode.js:
      the integer that has this number.\<close>
  "varintToTsize v = (if even v then int (v div 2) else - int (v div 2) - 1)"

definition textDecoder_decode :: "byte list \<Rightarrow> string" where
  \<comment> \<open>The reading of a text field. A string is held as its UTF-8 bytes, so the bytes
      are the string; the replacement a \<^verbatim>\<open>TextDecoder\<close> makes in bytes that are no
      UTF-8 does not show in this representation.\<close>
  "textDecoder_decode bs = map (\<lambda>b. char_of (unat b)) bs"

definition lengthDelimited :: "nat \<Rightarrow> byte list \<Rightarrow> byte list" where
  \<comment> \<open>Modelled from the spec: tag (field number and wire type 2), length, payload (4.4).\<close>
  "lengthDelimited fieldNum payload =
     encodeVarint (fieldNum * 8 + 2) @ encodeVarint (length payload) @ payload"

definition varintField :: "nat \<Rightarrow> nat \<Rightarrow> byte list" where
  \<comment> \<open>Modelled from the spec: tag (field number and wire type 0), varint (4.4).\<close>
  "varintField fieldNum v = encodeVarint (fieldNum * 8) @ encodeVarint v"

definition encodeLink :: "pblink \<Rightarrow> byte list" where
  \<comment> \<open>Modelled from the spec: the Link message of 6, missing with pb-encode.js. Field 1
      is Hash, field 2 Name, field 3 Tsize; a field absent from the record is absent
      from the bytes.\<close>
  "encodeLink l =
     (case pbl_Hash l of None \<Rightarrow> [] | Some h \<Rightarrow> lengthDelimited 1 h)
     @ (case pbl_Name l of None \<Rightarrow> [] | Some s \<Rightarrow> lengthDelimited 2 (textEncoder_encode s))
     @ (case pbl_Tsize l of None \<Rightarrow> [] | Some t \<Rightarrow> varintField 3 (tsizeToVarint t))"

definition encodeNode :: "pbnode \<Rightarrow> byte list" where
  \<comment> \<open>Modelled from the spec: the Node message of 4.4 and 6, missing with pb-encode.js.
      The links, each as field 2, then Data as field 1 when present.\<close>
  "encodeNode node =
     concat (map (\<lambda>l. lengthDelimited 2 (encodeLink l)) (pbn_Links node))
     @ (case pbn_Data node of None \<Rightarrow> [] | Some d \<Rightarrow> lengthDelimited 1 d)"

text \<open>
  The value of a field as the wire type of its tag frames it: a varint (wire type 0),
  eight bytes (1), a length and that many bytes (2), four bytes (5).
\<close>

datatype wire_value =
    Varint nat
  | Fixed64 "byte list"
  | LengthDelimited "byte list"
  | Fixed32 "byte list"

definition takeBytes :: "nat \<Rightarrow> byte list \<Rightarrow> (byte list \<times> byte list) option" where
  \<comment> \<open>The next \<open>n\<close> bytes and the bytes after them; \<open>None\<close> when fewer are left.\<close>
  "takeBytes n bs = (if n \<le> length bs then Some (take n bs, drop n bs) else None)"

definition decodeField :: "byte list \<Rightarrow> ((nat \<times> wire_value) \<times> byte list) option" where
  \<comment> \<open>Modelled from the spec: one field of a message (4.4), missing with pb-decode.js.
      The tag gives the field number and the wire type; the wire type gives the extent
      of the value, which is what lets an unknown field be passed over.\<close>
  "decodeField bs =
     (case decodeVarint bs of
        None \<Rightarrow> None
      | Some (tag, r1) \<Rightarrow>
          (let fieldNum = tag div 8; wireType = tag mod 8 in
           if wireType = 0 then
             (case decodeVarint r1 of
                None \<Rightarrow> None
              | Some (v, r2) \<Rightarrow> Some ((fieldNum, Varint v), r2))
           else if wireType = 1 then
             (case takeBytes 8 r1 of
                None \<Rightarrow> None
              | Some (v, r2) \<Rightarrow> Some ((fieldNum, Fixed64 v), r2))
           else if wireType = 2 then
             (case decodeVarint r1 of
                None \<Rightarrow> None
              | Some (n, r2) \<Rightarrow>
                  (case takeBytes n r2 of
                     None \<Rightarrow> None
                   | Some (v, r3) \<Rightarrow> Some ((fieldNum, LengthDelimited v), r3)))
           else if wireType = 5 then
             (case takeBytes 4 r1 of
                None \<Rightarrow> None
              | Some (v, r2) \<Rightarrow> Some ((fieldNum, Fixed32 v), r2))
           else None))"

function decodeFields :: "byte list \<Rightarrow> (nat \<times> wire_value) list option" where
  \<comment> \<open>Modelled from the spec: the fields of a message, in wire order; \<open>None\<close> is the
      wire-format parse failure of 7.\<close>
  "decodeFields bs =
     (if bs = [] then Some []
      else
        (case decodeField bs of
           None \<Rightarrow> None
         | Some (f, rest) \<Rightarrow>
             (case decodeFields rest of None \<Rightarrow> None | Some fs \<Rightarrow> Some (f # fs))))"
  by pat_completeness auto
termination
proof (relation "measure length")
  show "wf (measure (length :: byte list \<Rightarrow> nat))"
    by simp
next
  fix bs :: "byte list" and x2 f rest
  assume field: "decodeField bs = Some x2" and x2: "(f, rest) = x2"
  have varint: "length r < length cs" if "decodeVarint cs = Some (n, r)" for cs n r
    using that
    by (induction cs arbitrary: n) (fastforce split: if_splits option.splits)+
  have taken: "length r \<le> length cs" if "takeBytes k cs = Some (v, r)" for k cs v r
    using that by (auto simp: takeBytes_def split: if_splits)
  from field x2 have "length rest < length bs"
    by (auto simp: decodeField_def Let_def split: option.splits if_splits
             dest!: varint taken)
  then show "(rest, bs) \<in> measure length"
    by simp
qed

declare decodeFields.simps [simp del]

definition noLink :: pblink where
  \<comment> \<open>The Link record of a message with no field.\<close>
  "noLink = \<lparr>pbl_Hash = None, pbl_Name = None, pbl_Tsize = None\<rparr>"

fun linkFields :: "pblink \<Rightarrow> (nat \<times> wire_value) list \<Rightarrow> pblink" where
  \<comment> \<open>Modelled from the spec: the Link record read off its fields (6); a field that is
      not one of the three is ignored (4.4).\<close>
  "linkFields l [] = l"
| "linkFields l ((n, LengthDelimited v) # fs) =
     (if n = 1 then linkFields (l\<lparr>pbl_Hash := Some v\<rparr>) fs
      else if n = 2 then linkFields (l\<lparr>pbl_Name := Some (textDecoder_decode v)\<rparr>) fs
      else linkFields l fs)"
| "linkFields l ((n, Varint v) # fs) =
     (if n = 3 then linkFields (l\<lparr>pbl_Tsize := Some (varintToTsize v)\<rparr>) fs
      else linkFields l fs)"
| "linkFields l (f # fs) = linkFields l fs"

definition decodeLink :: "byte list \<Rightarrow> pblink option" where
  \<comment> \<open>Modelled from the spec: the Link message of 6, missing with pb-decode.js.\<close>
  "decodeLink bs = map_option (linkFields noLink) (decodeFields bs)"

fun nodeFields :: "pbnode \<Rightarrow> (nat \<times> wire_value) list \<Rightarrow> pbnode option" where
  \<comment> \<open>Modelled from the spec: the Node record read off its fields (6): field 1 is Data,
      each field 2 one more link; any other field is ignored (4.4).\<close>
  "nodeFields node [] = Some node"
| "nodeFields node ((n, LengthDelimited v) # fs) =
     (if n = 1 then nodeFields (node\<lparr>pbn_Data := Some v\<rparr>) fs
      else if n = 2 then
        (case decodeLink v of
           None \<Rightarrow> None
         | Some l \<Rightarrow> nodeFields (node\<lparr>pbn_Links := pbn_Links node @ [l]\<rparr>) fs)
      else nodeFields node fs)"
| "nodeFields node (f # fs) = nodeFields node fs"

definition decodeNode :: "byte list \<Rightarrow> pbnode option" where
  \<comment> \<open>Modelled from the spec: the Node message of 4.4 and 6, missing with pb-decode.js.\<close>
  "decodeNode bs =
     (case decodeFields bs of
        None \<Rightarrow> None
      | Some fs \<Rightarrow> nodeFields \<lparr>pbn_Data = None, pbn_Links = []\<rparr> fs)"

section \<open>encode and decode\<close>

text \<open>
  \<^verbatim>\<open>encode\<close> (index.js 199-223). \<open>toPBLink\<close> is the callback of lines 204-216. It runs
  after \<^verbatim>\<open>validate\<close> has returned, on links whose \<^verbatim>\<open>Hash\<close> is a CID, whose
  \<^verbatim>\<open>Name\<close> is a string or undefined and whose \<^verbatim>\<open>Tsize\<close> is an integral number or
  undefined; the record it fills is typed for these, and the last branch of each
  \<^theory_text>\<open>case\<close> is for values that do not reach it.
\<close>

definition toPBLink :: "'c cid_class \<Rightarrow> 'c jsval \<Rightarrow> pblink" where
  "toPBLink CID l =
     \<lparr>pbl_Hash =
        (if truthy (get l ''Hash'') then
           (case get l ''Hash'' of JCID c \<Rightarrow> Some (CID_bytes CID c) | _ \<Rightarrow> None)
         else None),
      pbl_Name = (case get l ''Name'' of JString s \<Rightarrow> Some s | _ \<Rightarrow> None),
      pbl_Tsize = (case get l ''Tsize'' of JNumber (Finite q) \<Rightarrow> Some \<lfloor>q\<rfloor> | _ \<Rightarrow> None)\<rparr>"

definition toPBNode :: "'c cid_class \<Rightarrow> 'c jsval \<Rightarrow> pbnode" where
  "toPBNode CID node =
     \<lparr>pbn_Data =
        (if truthy (get node ''Data'') then
           (case get node ''Data'' of JUint8Array d \<Rightarrow> Some d | _ \<Rightarrow> None)
         else None),
      pbn_Links =
        (case get node ''Links'' of JArray ls \<Rightarrow> map (toPBLink CID) ls | _ \<Rightarrow> [])\<rparr>"

definition encode :: "'c cid_class \<Rightarrow> 'c jsval \<Rightarrow> error + byte list" where
  "encode CID node =
     (case validate node of
        Inl e \<Rightarrow> Inl e
      | Inr u \<Rightarrow> Inr (encodeNode (toPBNode CID node)))"

text \<open>
  \<^verbatim>\<open>decode\<close> (index.js 228-257). \<open>fromPBLink\<close> is the callback of lines 238-253.
  \<^verbatim>\<open>CID.decode\<close> is called inside a \<^verbatim>\<open>try\<close> whose \<^verbatim>\<open>catch\<close> is empty, so whatever it
  throws leaves \<^verbatim>\<open>link.Hash\<close> unset; on a link with no \<^verbatim>\<open>Hash\<close> it is called on
  \<^verbatim>\<open>undefined\<close>, which is no byte array to read a content identifier from.
\<close>

definition invalidHash :: error where
  "invalidHash = Error ''Invalid Hash field found in link, expected CID''"

definition fromPBLink :: "'c cid_class \<Rightarrow> pblink \<Rightarrow> error + 'c jsval" where
  "fromPBLink CID l =
     (case (case pbl_Hash l of
              None \<Rightarrow> None
            | Some h \<Rightarrow> (case CID_decode CID h of Inl m \<Rightarrow> None | Inr c \<Rightarrow> Some c)) of
        None \<Rightarrow> Inl invalidHash
      | Some c \<Rightarrow>
          Inr (JObject
            ([(''Hash'', JCID c)]
             @ (case pbl_Name l of None \<Rightarrow> [] | Some s \<Rightarrow> [(''Name'', JString s)])
             @ (case pbl_Tsize l of
                  None \<Rightarrow> []
                | Some t \<Rightarrow> [(''Tsize'', JNumber (Finite (of_int t)))]))))"

text \<open>
  The exception \<^verbatim>\<open>decodeNode\<close> raises on bytes that are no message; the specification
  names it (a DecodeError, 7) without its class or message.
\<close>

definition wireError :: error where
  "wireError = Error ''wire-format parse failure''"

definition decode :: "'c cid_class \<Rightarrow> byte list \<Rightarrow> error + 'c jsval" where
  "decode CID bytes =
     (case decodeNode bytes of
        None \<Rightarrow> Inl wireError
      | Some pbn \<Rightarrow>
          (case mapE (fromPBLink CID) (pbn_Links pbn) of
             Inl e \<Rightarrow> Inl e
           | Inr links \<Rightarrow>
               Inr (JObject
                 ((case pbn_Data pbn of None \<Rightarrow> [] | Some d \<Rightarrow> [(''Data'', JUint8Array d)])
                  @ [(''Links'', JArray links)]))))"

section \<open>Structural equality\<close>

text \<open>
  A field of a node or of a link is present where it reads other than \<^verbatim>\<open>undefined\<close>:
  this is the test \<^verbatim>\<open>validate\<close> makes before it looks at \<^verbatim>\<open>Data\<close>, \<^verbatim>\<open>Name\<close> and
  \<^verbatim>\<open>Tsize\<close> (lines 156, 182, 186) and \<^verbatim>\<open>encode\<close> before it writes \<^verbatim>\<open>Name\<close> and
  \<^verbatim>\<open>Tsize\<close> (lines 209, 212). Two nodes are structurally equal (\<open>sameNode\<close>) when
  \<^verbatim>\<open>Data\<close> reads the same in both (absent in both, or the same bytes) and their
  \<^verbatim>\<open>Links\<close> are arrays of the same length whose links read the same \<^verbatim>\<open>Hash\<close>,
  \<^verbatim>\<open>Name\<close> and \<^verbatim>\<open>Tsize\<close>, position by position.

  An object can also hold a property whose value is \<^verbatim>\<open>undefined\<close>. It reads like a
  property that is not there, and \<open>sameNode\<close> does not tell the two apart, but
  \<^verbatim>\<open>Object.keys\<close> lists it and \<^verbatim>\<open>hasOnlyProperties\<close> (line 52) counts it. \<open>keys\<close> is
  \<^verbatim>\<open>Object.keys\<close> on an object. Two nodes have the same properties (\<open>sameKeys\<close>) when
  their keys are the same and so are the keys of their links, position by position.
  \<open>noUndefined n\<close> says that no property of \<open>n\<close> or of a link of \<open>n\<close> holds
  \<^verbatim>\<open>undefined\<close>.
\<close>

definition linkView :: "'c jsval \<Rightarrow> 'c jsval \<times> 'c jsval \<times> 'c jsval" where
  "linkView l = (get l ''Hash'', get l ''Name'', get l ''Tsize'')"

definition sameNode :: "'c jsval \<Rightarrow> 'c jsval \<Rightarrow> bool" where
  "sameNode m n =
     (get m ''Data'' = get n ''Data''
      \<and> (case get m ''Links'' of
           JArray ms \<Rightarrow>
             (case get n ''Links'' of
                JArray ns \<Rightarrow> map linkView ms = map linkView ns
              | _ \<Rightarrow> False)
         | _ \<Rightarrow> False))"

fun keys :: "'c jsval \<Rightarrow> string list" where
  "keys (JObject kvs) = map fst kvs"
| "keys v = []"

definition sameKeys :: "'c jsval \<Rightarrow> 'c jsval \<Rightarrow> bool" where
  "sameKeys m n =
     (set (keys m) = set (keys n)
      \<and> (case get m ''Links'' of
           JArray ms \<Rightarrow>
             (case get n ''Links'' of
                JArray ns \<Rightarrow> map (\<lambda>l. set (keys l)) ms = map (\<lambda>l. set (keys l)) ns
              | _ \<Rightarrow> False)
         | _ \<Rightarrow> False))"

fun allDefined :: "'c jsval \<Rightarrow> bool" where
  "allDefined (JObject kvs) = list_all (\<lambda>kv. snd kv \<noteq> JUndefined) kvs"
| "allDefined v = True"

definition noUndefined :: "'c jsval \<Rightarrow> bool" where
  "noUndefined n =
     (allDefined n
      \<and> (case get n ''Links'' of JArray ls \<Rightarrow> list_all allDefined ls | _ \<Rightarrow> True))"

section \<open>A content identifier class to evaluate with\<close>

text \<open>
  The theorems below hold for every \<open>'c cid_class\<close>. Where one is applied to concrete
  values, this class stands in for the library: a content identifier is its binary form,
  a byte sequence that starts with the version byte 1, and its text form is the letter
  \<^verbatim>\<open>b\<close> followed by the bytes after the version.
\<close>

definition demoCID :: "byte list cid_class" where
  "demoCID =
     \<lparr>CID_parse =
        (\<lambda>s. case s of
               [] \<Rightarrow> Inl ''Unexpected end of data''
             | c # rest \<Rightarrow>
                 if c = CHR ''b'' then Inr (1 # textEncoder_encode rest)
                 else Inl ''Unsupported encoding''),
      CID_decode =
        (\<lambda>bs. case bs of
                [] \<Rightarrow> Inl ''Unexpected end of data''
              | b # rest \<Rightarrow> if b = 1 then Inr bs else Inl ''Invalid CID version''),
      CID_bytes = (\<lambda>c. c)\<rparr>"

section \<open>The comparator is the lexicographic order of the name bytes\<close>

lemma spec_order_Nil_left: "spec_order [] bs = (if bs = [] then 0 else - 1)"
  by (cases bs) simp_all

lemma spec_order_Nil_right: "spec_order as [] = (if as = [] then 0 else 1)"
  by (cases as) simp_all

lemma scan_spec_order:
  "i \<le> min (length a) (length b) \<Longrightarrow>
   sign3 (scan a b i (min (length a) (length b)) (length a) (length b))
     = spec_order (drop i a) (drop i b)"
proof (induction "min (length a) (length b) - i" arbitrary: i)
  case 0
  then have i: "i = min (length a) (length b)" by simp
  show ?case
  proof (cases "length a \<le> length b")
    case True
    with i have "drop i a = []" by simp
    with True i show ?thesis
      by (subst scan.simps) (auto simp: sign3_def spec_order_Nil_left)
  next
    case False
    with i have "drop i b = []" by simp
    with False i show ?thesis
      by (subst scan.simps) (auto simp: sign3_def spec_order_Nil_right)
  qed
next
  case (Suc n)
  from Suc.hyps(2) have lt: "i < min (length a) (length b)" by arith
  then have da: "drop i a = a ! i # drop (Suc i) a" and db: "drop i b = b ! i # drop (Suc i) b"
    by (simp_all add: Cons_nth_drop_Suc)
  show ?case
  proof (cases "a ! i = b ! i")
    case True
    have "sign3 (scan a b (Suc i) (min (length a) (length b)) (length a) (length b))
            = spec_order (drop (Suc i) a) (drop (Suc i) b)"
      using Suc.hyps(1) [of "Suc i"] Suc.hyps(2) lt by simp
    with True lt show ?thesis
      by (subst scan.simps) (simp add: da db)
  next
    case False
    with lt show ?thesis
      by (subst scan.simps) (auto simp: da db sign3_def word_less_nat_alt simp flip: word_unat_eq_iff)
  qed
qed

lemma compareBytes_spec_order: "compareBytes a b = spec_order a b"
  using scan_spec_order [of 0 a b]
  by (simp add: compareBytes_def Let_def)

lemma spec_order_lex:
  "spec_order a b = (if a < b then - 1 else if b < a then 1 else 0)"
  by (induction a b rule: spec_order.induct) auto

lemma linkComparator_lex:
  "linkComparator a b =
     (if nameBytes a < nameBytes b then - 1 else if nameBytes b < nameBytes a then 1 else 0)"
  by (simp add: linkComparator_def compareBytes_spec_order spec_order_lex)

lemma linkComparator_same: "linkComparator a a = 0"
  by (simp add: linkComparator_lex)

lemma append_less_append: "p @ u < p @ v \<longleftrightarrow> u < (v :: byte list)"
  by (induction p) auto

lemma less_append_Cons: "u < u @ y # (t :: byte list)"
  using append_less_append [of u "[]" "y # t"] by simp

lemma nameBytes_cases:
  "nameBytes a = (case get a ''Name'' of JString s \<Rightarrow> textEncoder_encode s | _ \<Rightarrow> [])"
  by (cases "get a ''Name''") (simp_all add: nameBytes_def textEncoder_encode_def)

text \<open>
  C3. On links whose \<^verbatim>\<open>Name\<close> is a string or absent, \<^verbatim>\<open>linkComparator(a, b)\<close> is
  -1, 0 or 1 by the byte-wise lexicographic order of the UTF-8 encodings of the two
  names, an absent name read as the empty string. The first conjunct says so with the
  lexicographic order of the library on byte lists, the second with the order written
  from the words of the specification; the next two say what bytes are compared; the
  others are the cases the claim lists: the first differing byte decides, the lower
  sorting first; a proper prefix sorts first; equal bytes compare equal, so links that
  differ in \<^verbatim>\<open>Hash\<close> or \<^verbatim>\<open>Tsize\<close> only do; the name \<^verbatim>\<open>a\<close> sorts before \<^verbatim>\<open>ab\<close>.
\<close>

theorem linkComparator_bytewise:
  fixes a b :: "'c jsval"
  shows
    "namedByText a \<and> namedByText b \<longrightarrow>
     linkComparator a b =
       (if nameBytes a < nameBytes b then - 1 else if nameBytes b < nameBytes a then 1 else 0)
     \<and> linkComparator a b = spec_order (nameBytes a) (nameBytes b)
     \<and> (\<forall>s. get a ''Name'' = JString s \<longrightarrow> nameBytes a = textEncoder_encode s)
     \<and> (get a ''Name'' = JUndefined \<longrightarrow> nameBytes a = textEncoder_encode [])
     \<and> (\<forall>p x s y t. nameBytes a = p @ x # s \<and> nameBytes b = p @ y # t \<and> x \<noteq> y \<longrightarrow>
           linkComparator a b = (if x < y then - 1 else 1))
     \<and> (\<forall>y t. nameBytes b = nameBytes a @ y # t \<longrightarrow>
           linkComparator a b = - 1 \<and> linkComparator b a = 1)
     \<and> (nameBytes a = nameBytes b \<longrightarrow> linkComparator a b = 0)
     \<and> (get a ''Name'' = get b ''Name'' \<longrightarrow> linkComparator a b = 0)
     \<and> (get a ''Name'' = JString ''a'' \<and> get b ''Name'' = JString ''ab'' \<longrightarrow>
           linkComparator a b = - 1 \<and> linkComparator b a = 1)"
proof (intro impI conjI allI)
  show "linkComparator a b =
       (if nameBytes a < nameBytes b then - 1 else if nameBytes b < nameBytes a then 1 else 0)"
    by (rule linkComparator_lex)
  show "linkComparator a b = spec_order (nameBytes a) (nameBytes b)"
    by (simp add: linkComparator_def compareBytes_spec_order)
  show "nameBytes a = textEncoder_encode s" if "get a ''Name'' = JString s" for s
    using that by (simp add: nameBytes_cases)
  show "nameBytes a = textEncoder_encode []" if "get a ''Name'' = JUndefined"
    using that by (simp add: nameBytes_cases textEncoder_encode_def)
  show "linkComparator a b = (if x < y then - 1 else 1)"
    if "nameBytes a = p @ x # s \<and> nameBytes b = p @ y # t \<and> x \<noteq> y" for p x s y t
    using that by (auto simp: linkComparator_lex append_less_append)
  show "linkComparator a b = - 1" if "nameBytes b = nameBytes a @ y # t" for y t
    using that less_append_Cons [of "nameBytes a" y t] by (simp add: linkComparator_lex)
  show "linkComparator b a = 1" if "nameBytes b = nameBytes a @ y # t" for y t
    using that less_append_Cons [of "nameBytes a" y t] by (simp add: linkComparator_lex)
  show "linkComparator a b = 0" if "nameBytes a = nameBytes b"
    using that by (simp add: linkComparator_lex)
  show "linkComparator a b = 0" if "get a ''Name'' = get b ''Name''"
    using that by (simp add: linkComparator_lex nameBytes_def)
  show "linkComparator a b = - 1" if "get a ''Name'' = JString ''a'' \<and> get b ''Name'' = JString ''ab''"
    using that by (simp add: linkComparator_lex nameBytes_cases textEncoder_encode_def)
  show "linkComparator b a = 1" if "get a ''Name'' = JString ''a'' \<and> get b ''Name'' = JString ''ab''"
    using that by (simp add: linkComparator_lex nameBytes_cases textEncoder_encode_def)
qed

theorem linkComparator_bytewise_witness:
  "linkComparator (JObject [(''Hash'', JCID (1::nat)), (''Name'', JString ''a'')])
                  (JObject [(''Hash'', JCID 2), (''Name'', JString ''ab''), (''Tsize'', JNumber (Finite 7))]) = - 1
   \<and> linkComparator (JObject [(''Hash'', JCID (2::nat)), (''Name'', JString ''ab''), (''Tsize'', JNumber (Finite 7))])
                    (JObject [(''Hash'', JCID 1), (''Name'', JString ''a'')]) = 1
   \<and> linkComparator (JObject [(''Hash'', JCID (1::nat))])
                    (JObject [(''Hash'', JCID 2), (''Name'', JString '''')]) = 0"
  using linkComparator_bytewise
    [of "JObject [(''Hash'', JCID (1::nat)), (''Name'', JString ''a'')]"
        "JObject [(''Hash'', JCID 2), (''Name'', JString ''ab''), (''Tsize'', JNumber (Finite 7))]"]
    linkComparator_bytewise
    [of "JObject [(''Hash'', JCID (1::nat))]"
        "JObject [(''Hash'', JCID 2), (''Name'', JString '''')]"]
  by (simp add: namedByText_def nameBytes_def textEncoder_encode_def)

section \<open>What validate accepts\<close>

lemma validateLink_TypeError: "validateLink l p = Inl e \<Longrightarrow> \<exists>m. e = TypeError m"
  by (auto simp: validateLink_def split: if_splits)

lemma validateLinks_TypeError: "validateLinks p ls = Inl e \<Longrightarrow> \<exists>m. e = TypeError m"
  by (induction ls arbitrary: p) (auto split: sum.splits dest: validateLink_TypeError)

lemma validate_TypeError: "validate n = Inl e \<Longrightarrow> \<exists>m. e = TypeError m"
  by (auto simp: validate_def split: if_splits jsval.splits dest: validateLinks_TypeError)

lemma validate_failure: "validate n \<noteq> Inr () \<Longrightarrow> \<exists>m. validate n = Inl (TypeError m)"
  by (cases "validate n") (auto dest: validate_TypeError)

lemma validateLink_Some:
  "validateLink l (Some p) =
     (case validateLink l None of
        Inl e \<Rightarrow> Inl e
      | Inr u \<Rightarrow> if linkComparator l p = - 1 then Inl sortedMessage else Inr ())"
  by (simp add: validateLink_def sortedMessage_def)

lemma validateLink_weaken: "validateLink l p = Inr () \<Longrightarrow> validateLink l None = Inr ()"
  by (cases p) (auto simp: validateLink_Some split: sum.splits)

lemma validateLinks_member:
  "validateLinks p ls = Inr () \<Longrightarrow> l \<in> set ls \<Longrightarrow> validateLink l None = Inr ()"
  by (induction ls arbitrary: p) (auto split: sum.splits dest: validateLink_weaken)

lemma validateLink_accepts:
  "validateLink l None = Inr () \<longleftrightarrow>
     truthy l \<and> typeof l = ''object'' \<and> \<not> isArray l \<and> hasOnlyProperties l pbLinkProperties
     \<and> isCID (get l ''Hash'')
     \<and> (get l ''Name'' = JUndefined \<or> typeof (get l ''Name'') = ''string'')
     \<and> (get l ''Tsize'' = JUndefined
          \<or> typeof (get l ''Tsize'') = ''number'' \<and> \<not> fractional (get l ''Tsize''))"
  by (cases "get l ''Hash''") (auto simp: validateLink_def)

lemma successively_nth:
  "successively P xs \<longleftrightarrow> (\<forall>i. Suc i < length xs \<longrightarrow> P (xs ! i) (xs ! Suc i))"
proof (induction P xs rule: successively.induct)
  case (3 P x y xs)
  have "(\<forall>i. Suc i < length (x # y # xs) \<longrightarrow> P ((x # y # xs) ! i) ((x # y # xs) ! Suc i))
        \<longleftrightarrow> P x y \<and> (\<forall>i. Suc i < length (y # xs) \<longrightarrow> P ((y # xs) ! i) ((y # xs) ! Suc i))"
    (is "?L \<longleftrightarrow> ?R")
  proof
    assume l: ?L
    from l [rule_format, of 0] have "P x y" by simp
    moreover have "P ((y # xs) ! i) ((y # xs) ! Suc i)" if "Suc i < length (y # xs)" for i
      using l [rule_format, of "Suc i"] that by simp
    ultimately show ?R by blast
  next
    assume r: ?R
    show ?L
    proof (intro allI impI)
      fix i assume "Suc i < length (x # y # xs)"
      with r show "P ((x # y # xs) ! i) ((x # y # xs) ! Suc i)"
        by (cases i) auto
    qed
  qed
  with 3 show ?case by simp
qed simp_all

lemma validateLinks_order:
  "\<forall>l \<in> set ls. validateLink l None = Inr () \<Longrightarrow>
   validateLinks p ls =
     (if successively (\<lambda>a b. linkComparator b a \<noteq> - 1) (case p of None \<Rightarrow> ls | Some q \<Rightarrow> q # ls)
      then Inr () else Inl sortedMessage)"
proof (induction ls arbitrary: p)
  case Nil
  then show ?case by (simp split: option.splits)
next
  case (Cons l ls)
  then have l: "validateLink l None = Inr ()" and ls: "\<forall>l \<in> set ls. validateLink l None = Inr ()"
    by simp_all
  show ?case
    using Cons.IH [OF ls, of "Some l"] l
    by (cases p) (auto simp: validateLink_Some)
qed

lemma validate_links:
  "truthy n \<Longrightarrow> typeof n = ''object'' \<Longrightarrow> \<not> isArray n \<Longrightarrow>
   hasOnlyProperties n pbNodeProperties \<Longrightarrow>
   get n ''Data'' = JUndefined \<or> isUint8Array (get n ''Data'') \<Longrightarrow>
   get n ''Links'' = JArray ls \<Longrightarrow>
   validate n = validateLinks None ls"
  by (auto simp: validate_def)

lemma validateLink_not_sorted: "validateLink l None \<noteq> Inl sortedMessage"
  by (simp add: validateLink_def sortedMessage_def)

lemma names_a_b:
  assumes "get la ''Name'' = JString ''a''" and "get lb ''Name'' = JString ''b''"
  shows "linkComparator la lb = - 1" and "linkComparator lb la = 1"
  using assms by (simp_all add: linkComparator_lex nameBytes_def textEncoder_encode_def)

lemma validateLinks_b_a:
  assumes "get la ''Name'' = JString ''a''" and "get lb ''Name'' = JString ''b''"
  shows "\<exists>m. validateLinks None [lb, la] = Inl (TypeError m)"
proof (cases "validateLink lb None")
  case (Inl e)
  then show ?thesis by (auto dest: validateLink_TypeError)
next
  case (Inr u)
  show ?thesis
  proof (cases "validateLink la None")
    case (Inl e)
    with Inr show ?thesis
      by (auto simp: validateLink_Some dest: validateLink_TypeError)
  next
    case (Inr v)
    with \<open>validateLink lb None = Inr u\<close> names_a_b(1) [OF assms] show ?thesis
      by (simp add: validateLink_Some sortedMessage_def)
  qed
qed

lemma validateLinks_a_b:
  assumes "get la ''Name'' = JString ''a''" and "get lb ''Name'' = JString ''b''"
  shows "validateLinks None [la, lb] \<noteq> Inl sortedMessage"
  using names_a_b(2) [OF assms] validateLink_not_sorted [of la] validateLink_not_sorted [of lb]
  by (auto simp: validateLink_Some split: sum.splits)

text \<open>
  C2. A node whose links are named \<^verbatim>\<open>b\<close> then \<^verbatim>\<open>a\<close> is refused by \<^verbatim>\<open>validate\<close> and
  by \<^verbatim>\<open>encode\<close> with a TypeError, and the same links the other way round do not fail
  the test of line 190 (first conjunct, for any two links with these names); where the
  two links are well formed, the TypeError is the one of line 191, and the other way
  round they are accepted (second conjunct). More generally, on a node that passes every
  other check, \<^verbatim>\<open>validate\<close> fails exactly when some link compares as -1 against the
  link before it, and then with the TypeError of line 191 (third conjunct).
\<close>

theorem links_order_enforced:
  fixes CID :: "'c cid_class" and la lb n :: "'c jsval"
  shows
    "(get la ''Name'' = JString ''a'' \<and> get lb ''Name'' = JString ''b'' \<longrightarrow>
        (\<exists>m. validate (JObject [(''Links'', JArray [lb, la])]) = Inl (TypeError m))
        \<and> (\<exists>m. encode CID (JObject [(''Links'', JArray [lb, la])]) = Inl (TypeError m))
        \<and> validate (JObject [(''Links'', JArray [la, lb])]) \<noteq> Inl sortedMessage)
     \<and> (validateLink la None = Inr () \<and> validateLink lb None = Inr ()
        \<and> get la ''Name'' = JString ''a'' \<and> get lb ''Name'' = JString ''b'' \<longrightarrow>
        validate (JObject [(''Links'', JArray [lb, la])]) = Inl sortedMessage
        \<and> encode CID (JObject [(''Links'', JArray [lb, la])]) = Inl sortedMessage
        \<and> validate (JObject [(''Links'', JArray [la, lb])]) = Inr ())
     \<and> (truthy n \<and> typeof n = ''object'' \<and> \<not> isArray n \<and> hasOnlyProperties n pbNodeProperties
          \<and> (get n ''Data'' = JUndefined \<or> isUint8Array (get n ''Data''))
          \<and> get n ''Links'' = JArray ls
          \<and> (\<forall>l \<in> set ls. validateLink l None = Inr ()) \<longrightarrow>
        (validate n \<noteq> Inr ()) =
          (\<exists>i. Suc i < length ls \<and> linkComparator (ls ! Suc i) (ls ! i) = - 1)
        \<and> (validate n \<noteq> Inr () \<longrightarrow> validate n = Inl sortedMessage
             \<and> encode CID n = Inl sortedMessage))"
proof (intro conjI impI)
  have bad: "validate (JObject [(''Links'', JArray [lb, la])]) = validateLinks None [lb, la]"
    by (rule validate_links) (simp_all add: pbNodeProperties_def)
  have good: "validate (JObject [(''Links'', JArray [la, lb])]) = validateLinks None [la, lb]"
    by (rule validate_links) (simp_all add: pbNodeProperties_def)
  {
    assume h: "get la ''Name'' = JString ''a'' \<and> get lb ''Name'' = JString ''b''"
    from h have "\<exists>m. validateLinks None [lb, la] = Inl (TypeError m)"
      by (intro validateLinks_b_a) simp_all
    then show 0: "\<exists>m. validate (JObject [(''Links'', JArray [lb, la])]) = Inl (TypeError m)"
      unfolding bad .
    from 0 show "\<exists>m. encode CID (JObject [(''Links'', JArray [lb, la])]) = Inl (TypeError m)"
      by (auto simp: encode_def)
    from h have "validateLinks None [la, lb] \<noteq> Inl sortedMessage"
      by (intro validateLinks_a_b) simp_all
    then show "validate (JObject [(''Links'', JArray [la, lb])]) \<noteq> Inl sortedMessage"
      unfolding good .
  }
  {
    assume h: "validateLink la None = Inr () \<and> validateLink lb None = Inr ()
        \<and> get la ''Name'' = JString ''a'' \<and> get lb ''Name'' = JString ''b''"
    then have ab: "linkComparator la lb = - 1" and ba: "linkComparator lb la = 1"
      by (simp_all add: names_a_b)
    from h ab show 1: "validate (JObject [(''Links'', JArray [lb, la])]) = Inl sortedMessage"
      by (simp add: bad validateLink_Some)
    from 1 show "encode CID (JObject [(''Links'', JArray [lb, la])]) = Inl sortedMessage"
      by (simp add: encode_def)
    from h ba show "validate (JObject [(''Links'', JArray [la, lb])]) = Inr ()"
      by (simp add: good validateLink_Some)
  }
next
  assume h: "truthy n \<and> typeof n = ''object'' \<and> \<not> isArray n \<and> hasOnlyProperties n pbNodeProperties
          \<and> (get n ''Data'' = JUndefined \<or> isUint8Array (get n ''Data''))
          \<and> get n ''Links'' = JArray ls
          \<and> (\<forall>l \<in> set ls. validateLink l None = Inr ())"
  then have v: "validate n = validateLinks None ls"
    by (intro validate_links) simp_all
  from h have o: "validateLinks None ls =
     (if successively (\<lambda>a b. linkComparator b a \<noteq> - 1) ls then Inr () else Inl sortedMessage)"
    using validateLinks_order [of ls None] by simp
  show "(validate n \<noteq> Inr ()) =
          (\<exists>i. Suc i < length ls \<and> linkComparator (ls ! Suc i) (ls ! i) = - 1)"
    by (simp add: v o successively_nth)
  show "validate n = Inl sortedMessage" if "validate n \<noteq> Inr ()"
    using that by (simp add: v o split: if_splits)
  show "encode CID n = Inl sortedMessage" if "validate n \<noteq> Inr ()"
    using that by (simp add: encode_def v o split: if_splits)
qed

theorem links_order_enforced_witness:
  "validate (JObject [(''Links'', JArray
       [JObject [(''Hash'', JCID [1, 2 :: byte]), (''Name'', JString ''b'')],
        JObject [(''Hash'', JCID [1, 3]), (''Name'', JString ''a'')]])]) = Inl sortedMessage
   \<and> encode demoCID (JObject [(''Links'', JArray
       [JObject [(''Hash'', JCID [1, 2 :: byte]), (''Name'', JString ''b'')],
        JObject [(''Hash'', JCID [1, 3]), (''Name'', JString ''a'')]])]) = Inl sortedMessage
   \<and> validate (JObject [(''Links'', JArray
       [JObject [(''Hash'', JCID [1, 3 :: byte]), (''Name'', JString ''a'')],
        JObject [(''Hash'', JCID [1, 2]), (''Name'', JString ''b'')]])]) = Inr ()
   \<and> (\<exists>m. validate (JObject [(''Links'', JArray
       [JObject [(''Name'', JString ''b'')], JObject [(''Name'', JString ''a'')]])]
         :: byte list jsval) = Inl (TypeError m))
   \<and> (\<exists>m. encode demoCID (JObject [(''Links'', JArray
       [JObject [(''Name'', JString ''b'')], JObject [(''Name'', JString ''a'')]])])
         = Inl (TypeError m))"
  using links_order_enforced
    [where la = "JObject [(''Hash'', JCID [1, 3 :: byte]), (''Name'', JString ''a'')]"
       and lb = "JObject [(''Hash'', JCID [1, 2 :: byte]), (''Name'', JString ''b'')]"
       and n = "JObject [(''Links'', JArray [])]" and ls = "[]" and CID = demoCID]
    links_order_enforced
    [where la = "JObject [(''Name'', JString ''a'')] :: byte list jsval"
       and lb = "JObject [(''Name'', JString ''b'')]"
       and n = "JObject [(''Links'', JArray [])]" and ls = "[]" and CID = demoCID]
  by (simp add: validateLink_accepts pbLinkProperties_def)

section \<open>What prepare returns\<close>

lemma linkCID_TypeError: "linkCID CID h = Inl e \<Longrightarrow> \<exists>m. e = TypeError m"
  by (auto simp: linkCID_def split: if_splits option.splits jsval.splits sum.splits)

lemma asLink_TypeError: "asLink CID l = Inl e \<Longrightarrow> \<exists>m. e = TypeError m"
  by (auto simp: asLink_def nullRead_def split: if_splits sum.splits option.splits
           dest: linkCID_TypeError)

lemma mapE_failure:
  "l \<in> set ls \<Longrightarrow> f l = Inl e \<Longrightarrow> \<exists>e' l'. l' \<in> set ls \<and> f l' = Inl e' \<and> mapE f ls = Inl e'"
proof (induction ls)
  case Nil
  then show ?case by simp
next
  case (Cons x xs)
  show ?case
  proof (cases "f x")
    case (Inl a)
    then show ?thesis by auto
  next
    case (Inr y)
    with Cons.prems have "l \<in> set xs" by auto
    from Cons.IH [OF this Cons.prems(2)] obtain e' l'
      where "l' \<in> set xs" "f l' = Inl e'" "mapE f xs = Inl e'" by blast
    with Inr show ?thesis by auto
  qed
qed

lemma mapE_success:
  "mapE f xs = Inr ys \<Longrightarrow> length ys = length xs \<and> (\<forall>i < length xs. f (xs ! i) = Inr (ys ! i))"
proof (induction xs arbitrary: ys)
  case Nil
  then show ?case by simp
next
  case (Cons x xs)
  then obtain y ys' where y: "f x = Inr y" and ys': "mapE f xs = Inr ys'" and ys: "ys = y # ys'"
    by (auto split: sum.splits)
  from Cons.IH [OF ys'] y ys show ?case
    by (auto simp: nth_Cons split: nat.splits)
qed

lemma asLink_no_Hash:
  "get l ''Hash'' = JUndefined \<Longrightarrow> \<exists>m. asLink CID l = Inl (TypeError m)"
  by (simp add: asLink_def linkCID_def nullRead_def)

lemma asLink_bad_text:
  "get l ''Hash'' = JString s \<Longrightarrow> CID_parse CID s = Inl m \<Longrightarrow>
   \<exists>m'. asLink CID l = Inl (TypeError m')"
  by (cases l) (simp_all add: asLink_def linkCID_def)

lemma asLink_bad_bytes:
  "get l ''Hash'' = JUint8Array bs \<Longrightarrow> CID_decode CID bs = Inl m \<Longrightarrow>
   \<exists>m'. asLink CID l = Inl (TypeError m')"
  by (cases l) (simp_all add: asLink_def linkCID_def)

lemma prepare_links_failure:
  assumes "get n ''Links'' = JArray ls" and "l \<in> set ls" and "asLink CID l = Inl e"
  shows "\<exists>m. prepare CID n = Inl (TypeError m)"
proof -
  from assms(1) obtain kvs where n: "n = JObject kvs"
    by (cases n) simp_all
  from mapE_failure [of l ls "asLink CID" e] assms(2,3) obtain e' l'
    where "asLink CID l' = Inl e'" and m: "mapE (asLink CID) ls = Inl e'" by blast
  then obtain m' where "e' = TypeError m'"
    by (auto dest: asLink_TypeError)
  with m assms(1,2) show ?thesis
    by (auto simp: n prepare_def shorthand_def prepareLinks_def Let_def)
qed

lemma validateLinks_failure:
  "l \<in> set ls \<Longrightarrow> validateLink l None \<noteq> Inr () \<Longrightarrow> validateLinks p ls \<noteq> Inr ()"
  using validateLinks_member by blast

lemma validate_links_failure:
  assumes "get n ''Links'' = JArray ls" and "l \<in> set ls" and "validateLink l None \<noteq> Inr ()"
  shows "\<exists>m. validate n = Inl (TypeError m)"
proof -
  have "validate n \<noteq> Inr ()"
    using assms validateLinks_failure [OF assms(2,3), of None]
    by (auto simp: validate_def split: if_splits)
  then show ?thesis by (rule validate_failure)
qed

lemma get_prepared_Links:
  "get (JObject (prepareData d @ [(''Links'', JArray ls)])) ''Links'' = JArray ls"
  by (auto simp: prepareData_def split: jsval.splits)

lemma get_prepared_Data:
  "get (JObject (prepareData d @ [(''Links'', JArray ls)])) ''Data'' =
     (case d of
        JString s \<Rightarrow> if s = [] then JUndefined else JUint8Array (textEncoder_encode s)
      | JUint8Array bs \<Rightarrow> JUint8Array bs
      | _ \<Rightarrow> JUndefined)"
  by (auto simp: prepareData_def split: jsval.splits)

text \<open>
  C5. \<^verbatim>\<open>validate\<close> throws a TypeError on a node with a link that has no \<^verbatim>\<open>Hash\<close>, or
  whose \<^verbatim>\<open>Hash\<close> is a byte array or a string (first conjunct). \<^verbatim>\<open>prepare\<close> takes both
  forms and puts the content identifier they decode or parse to in their place (second
  and third); it throws a TypeError on a link with no \<^verbatim>\<open>Hash\<close>, with a text that does
  not parse or with bytes that do not decode (fourth).
\<close>

theorem hash_required:
  fixes CID :: "'c cid_class" and n l :: "'c jsval"
  shows
    "(get n ''Links'' = JArray ls \<and> l \<in> set ls
        \<and> (get l ''Hash'' = JUndefined \<or> isUint8Array (get l ''Hash'')
            \<or> typeof (get l ''Hash'') = ''string'') \<longrightarrow>
        (\<exists>m. validate n = Inl (TypeError m)))
     \<and> (\<forall>bs c. CID_decode CID bs = Inr c \<longrightarrow>
          prepare CID (JObject [(''Links'', JArray [JObject [(''Hash'', JUint8Array bs)]])])
            = Inr (JObject [(''Links'', JArray [JObject [(''Hash'', JCID c)]])]))
     \<and> (\<forall>s c. s \<noteq> [] \<and> CID_parse CID s = Inr c \<longrightarrow>
          prepare CID (JObject [(''Links'', JArray [JObject [(''Hash'', JString s)]])])
            = Inr (JObject [(''Links'', JArray [JObject [(''Hash'', JCID c)]])]))
     \<and> (get n ''Links'' = JArray ls \<and> l \<in> set ls
        \<and> (get l ''Hash'' = JUndefined
            \<or> (\<exists>s m. get l ''Hash'' = JString s \<and> CID_parse CID s = Inl m)
            \<or> (\<exists>bs m. get l ''Hash'' = JUint8Array bs \<and> CID_decode CID bs = Inl m)) \<longrightarrow>
        (\<exists>m. prepare CID n = Inl (TypeError m)))"
proof (intro conjI impI allI)
  assume h: "get n ''Links'' = JArray ls \<and> l \<in> set ls
        \<and> (get l ''Hash'' = JUndefined \<or> isUint8Array (get l ''Hash'')
            \<or> typeof (get l ''Hash'') = ''string'')"
  then have "\<not> isCID (get l ''Hash'')"
    by (cases "get l ''Hash''") auto
  then have "validateLink l None \<noteq> Inr ()"
    by (simp add: validateLink_accepts)
  with h show "\<exists>m. validate n = Inl (TypeError m)"
    by (intro validate_links_failure [of n ls l]) simp_all
next
  fix bs c assume "CID_decode CID bs = Inr c"
  then show "prepare CID (JObject [(''Links'', JArray [JObject [(''Hash'', JUint8Array bs)]])])
            = Inr (JObject [(''Links'', JArray [JObject [(''Hash'', JCID c)]])])"
    by (simp add: prepare_def shorthand_def prepareLinks_def prepareData_def asLink_def
          linkCID_def sortLinks_def)
next
  fix s c assume "s \<noteq> [] \<and> CID_parse CID s = Inr c"
  then show "prepare CID (JObject [(''Links'', JArray [JObject [(''Hash'', JString s)]])])
            = Inr (JObject [(''Links'', JArray [JObject [(''Hash'', JCID c)]])])"
    by (simp add: prepare_def shorthand_def prepareLinks_def prepareData_def asLink_def
          linkCID_def sortLinks_def)
next
  assume h: "get n ''Links'' = JArray ls \<and> l \<in> set ls
        \<and> (get l ''Hash'' = JUndefined
            \<or> (\<exists>s m. get l ''Hash'' = JString s \<and> CID_parse CID s = Inl m)
            \<or> (\<exists>bs m. get l ''Hash'' = JUint8Array bs \<and> CID_decode CID bs = Inl m))"
  then have "\<exists>m. asLink CID l = Inl (TypeError m)"
    using asLink_no_Hash [of l CID] asLink_bad_text [of l _ CID] asLink_bad_bytes [of l _ CID]
    by blast
  with h show "\<exists>m. prepare CID n = Inl (TypeError m)"
    using prepare_links_failure [of n ls l CID] by blast
qed

theorem hash_required_witness:
  "(\<exists>m. validate (JObject [(''Links'', JArray [JObject [(''Name'', JString ''x'')]])]
           :: byte list jsval) = Inl (TypeError m))
   \<and> (\<exists>m. validate (JObject [(''Links'', JArray [JObject [(''Hash'', JUint8Array [1, 7])]])]
           :: byte list jsval) = Inl (TypeError m))
   \<and> (\<exists>m. validate (JObject [(''Links'', JArray [JObject [(''Hash'', JString ''bq'')]])]
           :: byte list jsval) = Inl (TypeError m))
   \<and> prepare demoCID (JObject [(''Links'', JArray [JObject [(''Hash'', JUint8Array [1, 7])]])])
        = Inr (JObject [(''Links'', JArray [JObject [(''Hash'', JCID [1, 7])]])])
   \<and> prepare demoCID (JObject [(''Links'', JArray [JObject [(''Hash'', JString ''bq'')]])])
        = Inr (JObject [(''Links'', JArray [JObject [(''Hash'', JCID [1, 113])]])])
   \<and> (\<exists>m. prepare demoCID (JObject [(''Links'', JArray [JObject [(''Name'', JString ''x'')]])])
           = Inl (TypeError m))
   \<and> (\<exists>m. prepare demoCID (JObject [(''Links'', JArray [JObject [(''Hash'', JUint8Array [0, 7])]])])
           = Inl (TypeError m))
   \<and> (\<exists>m. prepare demoCID (JObject [(''Links'', JArray [JObject [(''Hash'', JString ''zq'')]])])
           = Inl (TypeError m))"
  using
    hash_required [where CID = demoCID and l = "JObject [(''Name'', JString ''x'')]"
      and ls = "[JObject [(''Name'', JString ''x'')]]"
      and n = "JObject [(''Links'', JArray [JObject [(''Name'', JString ''x'')]])]"]
    hash_required [where CID = demoCID and l = "JObject [(''Hash'', JUint8Array [1, 7])]"
      and ls = "[JObject [(''Hash'', JUint8Array [1, 7])]]"
      and n = "JObject [(''Links'', JArray [JObject [(''Hash'', JUint8Array [1, 7])]])]"]
    hash_required [where CID = demoCID and l = "JObject [(''Hash'', JString ''bq'')]"
      and ls = "[JObject [(''Hash'', JString ''bq'')]]"
      and n = "JObject [(''Links'', JArray [JObject [(''Hash'', JString ''bq'')]])]"]
    hash_required [where CID = demoCID and l = "JObject [(''Hash'', JUint8Array [0, 7])]"
      and ls = "[JObject [(''Hash'', JUint8Array [0, 7])]]"
      and n = "JObject [(''Links'', JArray [JObject [(''Hash'', JUint8Array [0, 7])]])]"]
    hash_required [where CID = demoCID and l = "JObject [(''Hash'', JString ''zq'')]"
      and ls = "[JObject [(''Hash'', JString ''zq'')]]"
      and n = "JObject [(''Links'', JArray [JObject [(''Hash'', JString ''zq'')]])]"]
  by (simp add: demoCID_def textEncoder_encode_def)

lemma floor_three_halves: "\<lfloor>(3::rat) / 2\<rfloor> = 1"
  by (simp add: floor_eq_iff)

text \<open>
  C10. There are inputs that \<^verbatim>\<open>prepare\<close> takes and whose result \<^verbatim>\<open>validate\<close> refuses:
  a link with a content identifier and the \<^verbatim>\<open>Tsize\<close> 1.5 comes back from
  \<^verbatim>\<open>prepare\<close> as it is, and \<^verbatim>\<open>validate\<close> throws the TypeError of line 187 on it.
  \<^verbatim>\<open>asLink\<close> keeps every \<^verbatim>\<open>Tsize\<close> that is a number, and \<^verbatim>\<open>validate\<close> refuses every
  link whose \<^verbatim>\<open>Tsize\<close> is a number with a fractional part.
\<close>

theorem prepared_not_valid:
  fixes CID :: "'c cid_class" and c :: 'c and l l' :: "'c jsval"
  shows
    "prepare CID (JObject [(''Links'', JArray
         [JObject [(''Hash'', JCID c), (''Tsize'', JNumber (Finite (3 / 2)))]])])
       = Inr (JObject [(''Links'', JArray
           [JObject [(''Hash'', JCID c), (''Tsize'', JNumber (Finite (3 / 2)))]])])
     \<and> validate (JObject [(''Links'', JArray
           [JObject [(''Hash'', JCID c), (''Tsize'', JNumber (Finite (3 / 2)))]])])
         = Inl (TypeError ''Invalid DAG-PB form (link Tsize must be an integer)'')
     \<and> (\<exists>n p m. prepare CID n = Inr p \<and> validate p = Inl (TypeError m))
     \<and> (asLink CID l = Inr l' \<and> typeof (get l ''Tsize'') = ''number'' \<longrightarrow>
          get l' ''Tsize'' = get l ''Tsize'')
     \<and> (typeof (get l ''Tsize'') = ''number'' \<and> fractional (get l ''Tsize'') \<longrightarrow>
          (\<exists>m. validateLink l q = Inl (TypeError m)))"
proof (intro conjI impI)
  let ?n = "JObject [(''Links'', JArray
         [JObject [(''Hash'', JCID c), (''Tsize'', JNumber (Finite (3 / 2)))]])]"
  show p: "prepare CID ?n = Inr ?n"
    by (simp add: prepare_def shorthand_def prepareLinks_def prepareData_def asLink_def
          linkCID_def sortLinks_def)
  show v: "validate ?n = Inl (TypeError ''Invalid DAG-PB form (link Tsize must be an integer)'')"
    by (simp add: validate_def validateLink_def pbNodeProperties_def pbLinkProperties_def
          floor_three_halves)
  from p v show "\<exists>n p m. prepare CID n = Inr p \<and> validate p = Inl (TypeError m)"
    by blast
  show "get l' ''Tsize'' = get l ''Tsize''"
    if "asLink CID l = Inr l' \<and> typeof (get l ''Tsize'') = ''number''"
    using that by (auto simp: asLink_def split: if_splits sum.splits option.splits)
  show "\<exists>m. validateLink l q = Inl (TypeError m)"
    if "typeof (get l ''Tsize'') = ''number'' \<and> fractional (get l ''Tsize'')"
  proof -
    from that have "validateLink l None \<noteq> Inr ()"
      by (auto simp: validateLink_accepts)
    then have "validateLink l q \<noteq> Inr ()"
      using validateLink_weaken by blast
    then show ?thesis
      by (cases "validateLink l q") (auto dest: validateLink_TypeError)
  qed
qed

theorem prepared_not_valid_witness:
  "prepare demoCID (JObject [(''Links'', JArray
         [JObject [(''Hash'', JCID [1, 7]), (''Tsize'', JNumber (Finite (3 / 2)))]])])
       = Inr (JObject [(''Links'', JArray
           [JObject [(''Hash'', JCID [1, 7]), (''Tsize'', JNumber (Finite (3 / 2)))]])])
   \<and> validate (JObject [(''Links'', JArray
           [JObject [(''Hash'', JCID [1, 7 :: byte]), (''Tsize'', JNumber (Finite (3 / 2)))]])])
         = Inl (TypeError ''Invalid DAG-PB form (link Tsize must be an integer)'')"
  using prepared_not_valid [where CID = demoCID and c = "[1, 7]"]
  by simp

text \<open>
  C4, as the claim states it, fails: \<^verbatim>\<open>prepare\<close> of a byte array of length 0 returns a
  node whose \<^verbatim>\<open>Data\<close> is that empty byte array. A byte array is truthy whatever its
  length, so the test of line 114 lets it through to line 118.
\<close>

theorem prepare_empty_bytes_counterexample:
  "prepare demoCID (JUint8Array [])
     = Inr (JObject [(''Data'', JUint8Array []), (''Links'', JArray [])])
   \<and> get (JObject [(''Data'', JUint8Array []), (''Links'', JArray [])] :: byte list jsval) ''Data''
       = JUint8Array []
   \<and> prepare demoCID (JObject [(''Data'', JUint8Array [])])
       = Inr (JObject [(''Data'', JUint8Array []), (''Links'', JArray [])])"
  by (simp add: prepare_def shorthand_def prepareLinks_def prepareData_def)

text \<open>
  C4, amended. \<^verbatim>\<open>prepare\<close> of a record returns a node with no \<^verbatim>\<open>Data\<close> when the
  \<^verbatim>\<open>Data\<close> of the record is undefined or the empty string; a byte array, given as the
  input or as the \<^verbatim>\<open>Data\<close> of a record, is the \<^verbatim>\<open>Data\<close> of the node it returns,
  whatever its length.
\<close>

theorem prepare_data:
  fixes CID :: "'c cid_class" and m :: "'c jsval"
  shows
    "(prepare CID (JObject kvs) = Inr m
        \<and> (get (JObject kvs) ''Data'' = JUndefined \<or> get (JObject kvs) ''Data'' = JString '''') \<longrightarrow>
        get m ''Data'' = JUndefined)
     \<and> (prepare CID (JObject kvs) = Inr m \<and> get (JObject kvs) ''Data'' = JUint8Array bs \<longrightarrow>
          get m ''Data'' = JUint8Array bs)
     \<and> prepare CID (JUint8Array bs)
         = Inr (JObject [(''Data'', JUint8Array bs), (''Links'', JArray [])])"
proof (intro conjI impI)
  have data: "get m ''Data'' =
     (case get (JObject kvs) ''Data'' of
        JString s \<Rightarrow> if s = [] then JUndefined else JUint8Array (textEncoder_encode s)
      | JUint8Array bs \<Rightarrow> JUint8Array bs
      | _ \<Rightarrow> JUndefined)" if "prepare CID (JObject kvs) = Inr m"
    using that
    by (auto simp: prepare_def shorthand_def Let_def get_prepared_Data
             simp del: get.simps split: sum.splits)
  show "get m ''Data'' = JUndefined"
    if "prepare CID (JObject kvs) = Inr m
        \<and> (get (JObject kvs) ''Data'' = JUndefined \<or> get (JObject kvs) ''Data'' = JString '''')"
    using that data by auto
  show "get m ''Data'' = JUint8Array bs"
    if "prepare CID (JObject kvs) = Inr m \<and> get (JObject kvs) ''Data'' = JUint8Array bs"
    using that data by auto
  show "prepare CID (JUint8Array bs)
         = Inr (JObject [(''Data'', JUint8Array bs), (''Links'', JArray [])])"
    by (simp add: prepare_def shorthand_def prepareLinks_def prepareData_def)
qed

theorem prepare_data_witness:
  "get (JObject [(''Links'', JArray [])] :: byte list jsval) ''Data'' = JUndefined
   \<and> prepare demoCID (JObject [(''Data'', JString '''')]) = Inr (JObject [(''Links'', JArray [])])
   \<and> get (JObject [(''Data'', JUint8Array [5]), (''Links'', JArray [])] :: byte list jsval) ''Data''
       = JUint8Array [5]
   \<and> prepare demoCID (JObject [(''Data'', JUint8Array [5])])
       = Inr (JObject [(''Data'', JUint8Array [5]), (''Links'', JArray [])])
   \<and> prepare demoCID (JUint8Array [5])
       = Inr (JObject [(''Data'', JUint8Array [5]), (''Links'', JArray [])])"
proof -
  have 1: "prepare demoCID (JObject [(''Data'', JString '''')]) = Inr (JObject [(''Links'', JArray [])])"
    by (simp add: prepare_def shorthand_def prepareLinks_def prepareData_def)
  have 2: "prepare demoCID (JObject [(''Data'', JUint8Array [5])])
       = Inr (JObject [(''Data'', JUint8Array [5]), (''Links'', JArray [])])"
    by (simp add: prepare_def shorthand_def prepareLinks_def prepareData_def)
  show ?thesis
    using 1 2
      prepare_data [where CID = demoCID and kvs = "[(''Data'', JString '''')]"
        and m = "JObject [(''Links'', JArray [])]" and bs = "[5]"]
      prepare_data [where CID = demoCID and kvs = "[(''Data'', JUint8Array [5])]"
        and m = "JObject [(''Data'', JUint8Array [5]), (''Links'', JArray [])]" and bs = "[5]"]
    by simp
qed

section \<open>The order prepare leaves\<close>

lemma linkComparator_after: "linkComparator x y = 1 \<longleftrightarrow> nameBytes y < nameBytes x"
  by (auto simp: linkComparator_lex)

lemma linkComparator_before: "linkComparator x y = - 1 \<longleftrightarrow> nameBytes x < nameBytes y"
  by (auto simp: linkComparator_lex)

lemma set_insertLink: "set (insertLink x ys) = insert x (set ys)"
  by (induction ys) auto

lemma sorted_insertLink:
  "sorted (map nameBytes ys) \<Longrightarrow> sorted (map nameBytes (insertLink x ys))"
  by (induction ys) (auto simp: set_insertLink linkComparator_after)

lemma sorted_sortLinks: "sorted (map nameBytes (sortLinks xs))"
  by (induction xs) (simp_all add: sortLinks_def sorted_insertLink)

lemma length_insertLink: "length (insertLink x ys) = Suc (length ys)"
  by (induction ys) auto

lemma sortLinks_same_links:
  "set (sortLinks xs) = set xs \<and> length (sortLinks xs) = length xs"
  by (induction xs) (simp_all add: sortLinks_def set_insertLink length_insertLink)

lemma sorted_adjacent:
  assumes "sorted (map nameBytes ls)" and "Suc i < length ls"
  shows "nameBytes (ls ! i) \<le> nameBytes (ls ! Suc i)"
  using sorted_nth_mono [OF assms(1), of i "Suc i"] assms(2) by simp

lemma prepare_Links:
  assumes "prepare CID n = Inr m"
  shows "\<exists>ls. get m ''Links'' = JArray ls \<and> prepareLinks CID (get (shorthand n) ''Links'') = Inr ls"
  using assms
  by (auto simp: prepare_def Let_def get_prepared_Links simp del: get.simps
           split: if_splits sum.splits)

lemma prepareLinks_sorted:
  "prepareLinks CID v = Inr ls \<Longrightarrow> sorted (map nameBytes ls)"
  by (auto simp: prepareLinks_def sorted_sortLinks split: jsval.splits if_splits sum.splits)

lemma prepareLinks_none:
  "v = JUndefined \<or> v = JArray [] \<Longrightarrow> prepareLinks CID v = Inr ls \<Longrightarrow> ls = []"
  by (auto simp: prepareLinks_def)

lemma get_shorthand_Links:
  "get n ''Links'' = JUndefined \<or> get n ''Links'' = JArray [] \<Longrightarrow>
   get (shorthand n) ''Links'' = JUndefined \<or> get (shorthand n) ''Links'' = JArray []"
  by (cases n) (auto simp: shorthand_def)

lemma validateLink_sortedMessage:
  "validateLink l p = Inl sortedMessage \<Longrightarrow> \<exists>q. p = Some q \<and> linkComparator l q = - 1"
  by (cases p)
     (auto simp: validateLink_Some validateLink_not_sorted split: sum.splits if_splits)

lemma validateLinks_sortedMessage:
  "validateLinks p ls = Inl sortedMessage \<Longrightarrow>
   \<not> successively (\<lambda>a b. linkComparator b a \<noteq> - 1) (case p of None \<Rightarrow> ls | Some q \<Rightarrow> q # ls)"
proof (induction ls arbitrary: p)
  case Nil
  then show ?case by simp
next
  case (Cons l ls)
  show ?case
  proof (cases "validateLink l p")
    case (Inl e)
    with Cons.prems have "validateLink l p = Inl sortedMessage" by simp
    then obtain q where "p = Some q" "linkComparator l q = - 1"
      using validateLink_sortedMessage by blast
    then show ?thesis by simp
  next
    case (Inr u)
    with Cons.prems have "validateLinks (Some l) ls = Inl sortedMessage" by simp
    from Cons.IH [OF this] show ?thesis
      by (cases p) (auto simp: successively_Cons)
  qed
qed

lemma validate_sortedMessage:
  "validate n = Inl sortedMessage \<Longrightarrow>
   \<exists>ls. get n ''Links'' = JArray ls \<and> validateLinks None ls = Inl sortedMessage"
  by (cases "get n ''Links''") (auto simp: validate_def sortedMessage_def split: if_splits)

text \<open>
  C7. Where \<^verbatim>\<open>prepare\<close> returns a node, its \<^verbatim>\<open>Links\<close> are an array in which no link
  compares as 1 against the next one, nor as -1 against the one before it, which is the
  test of line 190, so that \<^verbatim>\<open>validate\<close> does not throw the TypeError of line 191 on
  the node; and they are the empty array when the input has no \<^verbatim>\<open>Links\<close> or an empty
  array of them.
\<close>

theorem prepare_links_sorted:
  fixes CID :: "'c cid_class" and n m :: "'c jsval"
  shows
    "prepare CID n = Inr m \<longrightarrow>
       (\<exists>ls. get m ''Links'' = JArray ls
          \<and> (\<forall>i. Suc i < length ls \<longrightarrow>
                linkComparator (ls ! i) (ls ! Suc i) \<noteq> 1
                \<and> linkComparator (ls ! Suc i) (ls ! i) \<noteq> - 1)
          \<and> validate m \<noteq> Inl sortedMessage
          \<and> (get n ''Links'' = JUndefined \<or> get n ''Links'' = JArray [] \<longrightarrow> ls = []))"
proof
  assume "prepare CID n = Inr m"
  then obtain ls where ls: "get m ''Links'' = JArray ls"
    and p: "prepareLinks CID (get (shorthand n) ''Links'') = Inr ls"
    using prepare_Links by blast
  have s: "sorted (map nameBytes ls)"
    using p by (rule prepareLinks_sorted)
  have adjacent:
    "linkComparator (ls ! i) (ls ! Suc i) \<noteq> 1 \<and> linkComparator (ls ! Suc i) (ls ! i) \<noteq> - 1"
    if "Suc i < length ls" for i
    using sorted_adjacent [OF s that]
    by (simp add: linkComparator_after linkComparator_before not_less)
  have "validate m \<noteq> Inl sortedMessage"
  proof
    assume "validate m = Inl sortedMessage"
    from validate_sortedMessage [OF this] ls
    have "validateLinks None ls = Inl sortedMessage" by simp
    from validateLinks_sortedMessage [OF this]
    have "\<not> successively (\<lambda>a b. linkComparator b a \<noteq> - 1) ls" by simp
    with adjacent show False
      by (simp add: successively_nth)
  qed
  moreover have "ls = []" if "get n ''Links'' = JUndefined \<or> get n ''Links'' = JArray []"
    using prepareLinks_none [OF get_shorthand_Links [OF that] p] .
  ultimately show "\<exists>ls. get m ''Links'' = JArray ls
          \<and> (\<forall>i. Suc i < length ls \<longrightarrow>
                linkComparator (ls ! i) (ls ! Suc i) \<noteq> 1
                \<and> linkComparator (ls ! Suc i) (ls ! i) \<noteq> - 1)
          \<and> validate m \<noteq> Inl sortedMessage
          \<and> (get n ''Links'' = JUndefined \<or> get n ''Links'' = JArray [] \<longrightarrow> ls = [])"
    using ls adjacent by blast
qed

lemma prepare_three_links:
  "prepare demoCID (JObject [(''Links'', JArray
       [JObject [(''Hash'', JUint8Array [1, 2]), (''Name'', JString ''b'')],
        JObject [(''Hash'', JString ''bq''), (''Name'', JString ''ab'')],
        JObject [(''Hash'', JCID [1, 3]), (''Name'', JString ''a'')]])])
     = Inr (JObject [(''Links'', JArray
       [JObject [(''Hash'', JCID [1, 3]), (''Name'', JString ''a'')],
        JObject [(''Hash'', JCID [1, 113]), (''Name'', JString ''ab'')],
        JObject [(''Hash'', JCID [1, 2]), (''Name'', JString ''b'')]])])"
  by (simp add: prepare_def shorthand_def prepareLinks_def prepareData_def asLink_def
        linkCID_def sortLinks_def demoCID_def linkComparator_lex nameBytes_def
        textEncoder_encode_def)

theorem prepare_links_sorted_witness:
  "prepare demoCID (JObject [(''Links'', JArray
       [JObject [(''Hash'', JUint8Array [1, 2]), (''Name'', JString ''b'')],
        JObject [(''Hash'', JString ''bq''), (''Name'', JString ''ab'')],
        JObject [(''Hash'', JCID [1, 3]), (''Name'', JString ''a'')]])])
     = Inr (JObject [(''Links'', JArray
       [JObject [(''Hash'', JCID [1, 3]), (''Name'', JString ''a'')],
        JObject [(''Hash'', JCID [1, 113]), (''Name'', JString ''ab'')],
        JObject [(''Hash'', JCID [1, 2]), (''Name'', JString ''b'')]])])
   \<and> linkComparator
        (JObject [(''Hash'', JCID [1, 3 :: byte]), (''Name'', JString ''a'')])
        (JObject [(''Hash'', JCID [1, 113]), (''Name'', JString ''ab'')]) \<noteq> 1
   \<and> linkComparator
        (JObject [(''Hash'', JCID [1, 113 :: byte]), (''Name'', JString ''ab'')])
        (JObject [(''Hash'', JCID [1, 2]), (''Name'', JString ''b'')]) \<noteq> 1"
  using prepare_three_links
    prepare_links_sorted [where CID = demoCID
      and n = "JObject [(''Links'', JArray
       [JObject [(''Hash'', JUint8Array [1, 2]), (''Name'', JString ''b'')],
        JObject [(''Hash'', JString ''bq''), (''Name'', JString ''ab'')],
        JObject [(''Hash'', JCID [1, 3]), (''Name'', JString ''a'')]])]"
      and m = "JObject [(''Links'', JArray
       [JObject [(''Hash'', JCID [1, 3]), (''Name'', JString ''a'')],
        JObject [(''Hash'', JCID [1, 113]), (''Name'', JString ''ab'')],
        JObject [(''Hash'', JCID [1, 2]), (''Name'', JString ''b'')]])]"]
  by (simp add: linkComparator_lex nameBytes_def textEncoder_encode_def)

section \<open>The wire codec reads back what it writes\<close>

lemma encodeVarint_not_Nil: "encodeVarint n \<noteq> []"
  by (subst encodeVarint.simps) simp

lemma unat_byte: "m < 256 \<Longrightarrow> unat (of_nat m :: byte) = m"
  by (simp add: unat_of_nat)

lemma unat_low_byte: "n < 128 \<Longrightarrow> unat (of_nat n :: byte) = n"
  by (simp add: unat_byte)

lemma unat_high_byte: "unat (of_nat (n mod 128 + 128) :: byte) = n mod 128 + 128"
  by (rule unat_byte) (simp add: less_add_eq_less pos_mod_bound)

lemma decodeVarint_encodeVarint:
  "decodeVarint (encodeVarint n @ rest) = Some (n, rest)"
proof (induction n rule: encodeVarint.induct)
  case (1 n)
  show ?case
  proof (cases "n < 128")
    case True
    then have "(of_nat n :: byte) < 128"
      by (simp add: word_less_nat_alt unat_low_byte)
    with True show ?thesis
      by (subst encodeVarint.simps) (simp add: unat_low_byte)
  next
    case False
    with 1 have ih: "decodeVarint (encodeVarint (n div 128) @ rest) = Some (n div 128, rest)"
      by simp
    from False have enc:
      "encodeVarint n = of_nat (n mod 128 + 128) # encodeVarint (n div 128)"
      by (subst encodeVarint.simps) simp
    have hi: "\<not> (of_nat (n mod 128 + 128) :: byte) < 128"
      by (simp only: word_less_nat_alt unat_high_byte) simp
    have "decodeVarint (encodeVarint n @ rest) =
            Some (unat (of_nat (n mod 128 + 128) :: byte) - 128 + 128 * (n div 128), rest)"
      by (simp only: enc append_Cons decodeVarint.simps hi if_False ih option.case prod.case)
    also have "\<dots> = Some (n, rest)"
      by (simp only: unat_high_byte) simp
    finally show ?thesis .
  qed
qed

lemma takeBytes_append: "takeBytes (length p) (p @ rest) = Some (p, rest)"
  by (simp add: takeBytes_def)

lemma tag_fields:
  "(k * 8 + 2) div 8 = k" "(k * 8 + 2) mod 8 = 2" "(k * 8) div 8 = k" "(k * 8) mod 8 = 0"
  for k :: nat
  by presburger+

lemma decodeField_lengthDelimited:
  "decodeField (lengthDelimited k p @ rest) = Some ((k, LengthDelimited p), rest)"
  unfolding decodeField_def lengthDelimited_def append_assoc decodeVarint_encodeVarint
    option.case prod.case Let_def tag_fields takeBytes_append
  by simp

lemma decodeField_varintField:
  "decodeField (varintField k v @ rest) = Some ((k, Varint v), rest)"
  unfolding decodeField_def varintField_def append_assoc decodeVarint_encodeVarint
    option.case prod.case Let_def tag_fields
  by simp

lemma decodeFields_Nil: "decodeFields [] = Some []"
  by (subst decodeFields.simps) simp

lemma decodeFields_step:
  assumes "decodeField bs = Some (f, rest)"
  shows "decodeFields bs = map_option ((#) f) (decodeFields rest)"
proof -
  from assms have "bs \<noteq> []"
    by (auto simp: decodeField_def)
  with assms show ?thesis
    by (subst decodeFields.simps) (simp split: option.splits)
qed

lemma decodeFields_lengthDelimited:
  "decodeFields (lengthDelimited k p @ rest) =
     map_option ((#) (k, LengthDelimited p)) (decodeFields rest)"
  by (rule decodeFields_step) (rule decodeField_lengthDelimited)

lemma decodeFields_varintField:
  "decodeFields (varintField k v @ rest) =
     map_option ((#) (k, Varint v)) (decodeFields rest)"
  by (rule decodeFields_step) (rule decodeField_varintField)

lemma text_roundtrip: "textDecoder_decode (textEncoder_encode s) = s"
proof -
  have "char_of (unat (of_nat (of_char c) :: byte)) = c" for c
    by (simp add: unat_of_nat)
  then show ?thesis
    by (simp add: textDecoder_decode_def textEncoder_encode_def map_idI)
qed

lemma tsize_roundtrip: "varintToTsize (tsizeToVarint t) = t"
proof (cases "0 \<le> t")
  case True
  then have "tsizeToVarint t = 2 * nat t"
    by (simp add: tsizeToVarint_def)
  with True show ?thesis
    by (simp add: varintToTsize_def)
next
  case False
  then have "tsizeToVarint t = 2 * nat (- t - 1) + 1"
    by (simp add: tsizeToVarint_def)
  with False show ?thesis
    by (simp add: varintToTsize_def)
qed

lemma decodeFields_lengthDelimited_last:
  "decodeFields (lengthDelimited k p) = Some [(k, LengthDelimited p)]"
  using decodeFields_lengthDelimited [of k p "[]"] by (simp add: decodeFields_Nil)

lemma decodeFields_varintField_last:
  "decodeFields (varintField k v) = Some [(k, Varint v)]"
  using decodeFields_varintField [of k v "[]"] by (simp add: decodeFields_Nil)

lemmas decodeFields_written =
  decodeFields_Nil decodeFields_lengthDelimited decodeFields_varintField
  decodeFields_lengthDelimited_last decodeFields_varintField_last

lemma decodeLink_encodeLink: "decodeLink (encodeLink l) = Some l"
proof (cases l)
  case (fields h n t)
  then show ?thesis
    by (cases h; cases n; cases t)
       (simp_all add: decodeLink_def encodeLink_def decodeFields_written noLink_def
          text_roundtrip tsize_roundtrip)
qed

lemma decodeFields_links:
  "decodeFields (concat (map (\<lambda>l. lengthDelimited 2 (encodeLink l)) ls) @ rest) =
     map_option ((@) (map (\<lambda>l. (2, LengthDelimited (encodeLink l))) ls)) (decodeFields rest)"
proof (induction ls)
  case Nil
  show ?case by (simp add: option.map_ident)
next
  case (Cons l ls)
  then show ?case
    by (simp add: decodeFields_lengthDelimited option.map_comp comp_def)
qed

lemma nodeFields_links:
  "nodeFields node (map (\<lambda>l. (2, LengthDelimited (encodeLink l))) ls @ fs) =
     nodeFields (node\<lparr>pbn_Links := pbn_Links node @ ls\<rparr>) fs"
proof (induction ls arbitrary: node)
  case Nil
  show ?case by simp
next
  case (Cons l ls)
  then show ?case by (simp add: decodeLink_encodeLink)
qed

lemma decodeNode_encodeNode: "decodeNode (encodeNode node) = Some node"
proof (cases node)
  case (fields d ls)
  let ?fs = "map (\<lambda>l. (2, LengthDelimited (encodeLink l))) ls"
  let ?empty = "\<lparr>pbn_Data = None, pbn_Links = []\<rparr>"
  show ?thesis
  proof (cases d)
    case None
    have "decodeFields (encodeNode node) = Some ?fs"
      using decodeFields_links [of ls "[]"]
      by (simp add: encodeNode_def fields None decodeFields_Nil)
    moreover have "nodeFields ?empty ?fs = Some node"
      using nodeFields_links [of ?empty ls "[]"]
      by (simp add: fields None)
    ultimately show ?thesis
      by (simp add: decodeNode_def)
  next
    case (Some bs)
    have "decodeFields (encodeNode node) = Some (?fs @ [(1, LengthDelimited bs)])"
      using decodeFields_links [of ls "lengthDelimited 1 bs"]
      by (simp add: encodeNode_def fields Some decodeFields_lengthDelimited_last)
    moreover have "nodeFields ?empty (?fs @ [(1, LengthDelimited bs)]) = Some node"
      using nodeFields_links [of ?empty ls "[(1, LengthDelimited bs)]"]
      by (simp add: fields Some)
    ultimately show ?thesis
      by (simp add: decodeNode_def)
  qed
qed

section \<open>encode, then decode\<close>

lemma integral_number:
  assumes "typeof v = ''number''" and "\<not> fractional v"
  shows "\<exists>q. v = JNumber (Finite q) \<and> rat_of_int \<lfloor>q\<rfloor> = q"
proof -
  from assms(1) obtain x where v: "v = JNumber x"
    by (cases v) simp_all
  with assms(2) obtain q where x: "x = Finite q"
    and q: "q = rat_of_int (if 0 \<le> q then \<lfloor>q\<rfloor> else \<lceil>q\<rceil>)"
    by (cases x) simp_all
  from q obtain z where "q = rat_of_int z" ..
  then have "rat_of_int \<lfloor>q\<rfloor> = q" by simp
  with v x show ?thesis by simp
qed

text \<open>
  The keys of an object none of whose properties holds \<^verbatim>\<open>undefined\<close> are the names
  that read other than \<^verbatim>\<open>undefined\<close> on it, so two such objects with the same reads
  have the same keys.
\<close>

lemma hasOnlyProperties_keys:
  "hasOnlyProperties (JObject kvs) ps \<longleftrightarrow> set (keys (JObject kvs)) \<subseteq> set ps"
  by (auto simp: list_ex_iff)

lemma key_defined:
  assumes "allDefined (JObject kvs)"
  shows "k \<in> set (keys (JObject kvs)) \<longleftrightarrow> get (JObject kvs) k \<noteq> JUndefined"
proof (cases "map_of kvs k")
  case None
  then have "k \<notin> fst ` set kvs"
    by (simp add: map_of_eq_None_iff)
  with None show ?thesis
    by simp
next
  case (Some v)
  then have "(k, v) \<in> set kvs"
    by (rule map_of_SomeD)
  with assms Some show ?thesis
    by (force simp: list_all_iff)
qed

lemma same_keys:
  assumes "allDefined (JObject as)" and "allDefined (JObject bs)"
    and "set (keys (JObject as)) \<subseteq> K" and "set (keys (JObject bs)) \<subseteq> K"
    and "\<forall>k \<in> K. (get (JObject as) k = JUndefined) = (get (JObject bs) k = JUndefined)"
  shows "set (keys (JObject as)) = set (keys (JObject bs))"
  using assms(3-5) key_defined [OF assms(1)] key_defined [OF assms(2)]
  by blast

lemma valid_link_object:
  "validateLink l None = Inr () \<Longrightarrow>
   \<exists>kvs. l = JObject kvs \<and> set (keys l) \<subseteq> {''Hash'', ''Name'', ''Tsize''}"
  by (cases l) (auto simp: validateLink_accepts pbLinkProperties_def list_ex_iff)

lemma fromPBLink_object:
  "fromPBLink CID pl = Inr l' \<Longrightarrow>
   \<exists>kvs. l' = JObject kvs \<and> allDefined l' \<and> set (keys l') \<subseteq> {''Hash'', ''Name'', ''Tsize''}"
  by (cases "pbl_Name pl"; cases "pbl_Tsize pl")
     (auto simp: fromPBLink_def split: option.splits sum.splits)

lemma valid_link_roundtrip:
  assumes ok: "validateLink l None = Inr ()"
    and cid: "\<forall>c. get l ''Hash'' = JCID c \<longrightarrow> CID_decode CID (CID_bytes CID c) = Inr c"
  shows "\<exists>l'. fromPBLink CID (toPBLink CID l) = Inr l' \<and> linkView l' = linkView l"
proof -
  from ok obtain c where h: "get l ''Hash'' = JCID c"
    by (cases "get l ''Hash''") (auto simp: validateLink_accepts)
  with cid have c: "CID_decode CID (CID_bytes CID c) = Inr c"
    by simp
  from ok consider "get l ''Name'' = JUndefined" | s where "get l ''Name'' = JString s"
    by (cases "get l ''Name''") (auto simp: validateLink_accepts)
  note name = this
  from ok consider "get l ''Tsize'' = JUndefined"
    | q where "get l ''Tsize'' = JNumber (Finite q)" "rat_of_int \<lfloor>q\<rfloor> = q"
    using integral_number [of "get l ''Tsize''"] by (auto simp: validateLink_accepts)
  then show ?thesis
  proof cases
    case 1
    then show ?thesis
      by (cases rule: name) (simp_all add: toPBLink_def fromPBLink_def linkView_def h c)
  next
    case (2 q)
    then show ?thesis
      by (cases rule: name) (simp_all add: toPBLink_def fromPBLink_def linkView_def h c)
  qed
qed

lemma valid_link_keys:
  assumes ok: "validateLink l None = Inr ()" and defined: "allDefined l"
    and l': "fromPBLink CID pl = Inr l'" and view: "linkView l' = linkView l"
  shows "set (keys l') = set (keys l)"
proof -
  from valid_link_object [OF ok] obtain kvs
    where l: "l = JObject kvs" and k: "set (keys l) \<subseteq> {''Hash'', ''Name'', ''Tsize''}"
    by blast
  from fromPBLink_object [OF l'] obtain kvs'
    where m: "l' = JObject kvs'" and d': "allDefined l'"
      and k': "set (keys l') \<subseteq> {''Hash'', ''Name'', ''Tsize''}"
    by blast
  from view have "\<forall>k \<in> {''Hash'', ''Name'', ''Tsize''}.
      (get l' k = JUndefined) = (get l k = JUndefined)"
    by (simp add: linkView_def del: get.simps)
  with defined d' k k' show ?thesis
    unfolding l m by (intro same_keys) auto
qed

lemma mapE_map_all:
  "\<forall>x \<in> set xs. \<exists>y. f (k x) = Inr y \<and> g y = h x \<Longrightarrow>
   \<exists>ys. mapE f (map k xs) = Inr ys \<and> map g ys = map h xs"
proof (induction xs)
  case Nil
  show ?case by simp
next
  case (Cons x xs)
  then obtain y ys where "f (k x) = Inr y" "g y = h x"
    "mapE f (map k xs) = Inr ys" "map g ys = map h xs"
    by auto
  then show ?case by simp
qed

lemma valid_node_object:
  "validate n = Inr () \<Longrightarrow>
   \<exists>kvs. n = JObject kvs \<and> set (keys n) \<subseteq> {''Data'', ''Links''}"
  by (cases n) (auto simp: validate_def pbNodeProperties_def list_ex_iff split: if_splits)

text \<open>
  The round trip. \<^verbatim>\<open>decode\<close> returns a node that reads the same as the valid node
  that was encoded. It gives a property to what it found on the wire and to nothing
  else (lines 233, 246, 249), so the node it returns has the same keys too where no
  property of the node encoded holds \<^verbatim>\<open>undefined\<close>.
\<close>

lemma roundtrip_keys:
  fixes CID :: "'c cid_class" and n :: "'c jsval"
  assumes valid: "validate n = Inr ()"
    and links: "get n ''Links'' = JArray ls"
    and cid: "\<forall>l \<in> set ls. \<forall>c. get l ''Hash'' = JCID c \<longrightarrow>
                CID_decode CID (CID_bytes CID c) = Inr c"
  shows "\<exists>bytes m. encode CID n = Inr bytes \<and> decode CID bytes = Inr m \<and> sameNode m n
           \<and> (noUndefined n \<longrightarrow> sameKeys m n)"
proof -
  from valid links have vls: "validateLinks None ls = Inr ()"
    by (auto simp: validate_def split: if_splits)
  then have ok: "validateLink l None = Inr ()" if "l \<in> set ls" for l
    using that by (rule validateLinks_member)
  from valid consider "get n ''Data'' = JUndefined" | d where "get n ''Data'' = JUint8Array d"
    by (cases "get n ''Data''") (auto simp: validate_def split: if_splits)
  note data = this
  let ?view = "\<lambda>l. (linkView l, if allDefined l then Some (set (keys l)) else None)"
  have each: "\<exists>l'. fromPBLink CID (toPBLink CID l) = Inr l' \<and> linkView l' = linkView l
                \<and> (allDefined l \<longrightarrow> set (keys l') = set (keys l))"
    if "l \<in> set ls" for l
  proof -
    from valid_link_roundtrip [OF ok [OF that]] cid that obtain l'
      where l': "fromPBLink CID (toPBLink CID l) = Inr l'" and v: "linkView l' = linkView l"
      by blast
    with valid_link_keys [OF ok [OF that] _ l' v] show ?thesis
      by blast
  qed
  let ?pb = "toPBNode CID n"
  have pbl: "pbn_Links ?pb = map (toPBLink CID) ls"
    by (simp add: toPBNode_def links)
  obtain ys where ys: "mapE (fromPBLink CID) (map (toPBLink CID) ls) = Inr ys"
    and views: "map linkView ys = map linkView ls"
    using mapE_map_all [of ls "fromPBLink CID" "toPBLink CID" linkView linkView] each by blast
  let ?m = "JObject ((case pbn_Data ?pb of None \<Rightarrow> [] | Some d \<Rightarrow> [(''Data'', JUint8Array d)])
                    @ [(''Links'', JArray ys)])"
  have dec: "decode CID (encodeNode ?pb) = Inr ?m"
    using ys by (simp add: decode_def pbl decodeNode_encodeNode)
  have same: "sameNode ?m n"
    by (cases rule: data) (simp_all add: sameNode_def links views toPBNode_def)
  have keys: "sameKeys ?m n" if no: "noUndefined n"
  proof -
    from no links have dn: "allDefined n" and dl: "\<forall>l \<in> set ls. allDefined l"
      by (simp_all add: noUndefined_def list_all_iff)
    from valid_node_object [OF valid] obtain kvs
      where n: "n = JObject kvs" and kn: "set (keys n) \<subseteq> {''Data'', ''Links''}"
      by blast
    obtain kvs' where m: "?m = JObject kvs'" by simp
    have dm: "allDefined ?m" and km: "set (keys ?m) \<subseteq> {''Data'', ''Links''}"
      by (auto split: option.splits)
    have "\<forall>k \<in> {''Data'', ''Links''}. (get ?m k = JUndefined) = (get n k = JUndefined)"
      by (cases rule: data) (simp_all add: links toPBNode_def)
    with dn dm kn km have top: "set (keys ?m) = set (keys n)"
      unfolding n by (intro same_keys [where K = "{''Data'', ''Links''}"]) auto
    obtain zs where zs: "mapE (fromPBLink CID) (map (toPBLink CID) ls) = Inr zs"
      and zkeys: "map (\<lambda>l. set (keys l)) zs = map (\<lambda>l. set (keys l)) ls"
      using mapE_map_all [of ls "fromPBLink CID" "toPBLink CID"
          "\<lambda>l. set (keys l)" "\<lambda>l. set (keys l)"] each dl
      by blast
    with ys have "map (\<lambda>l. set (keys l)) ys = map (\<lambda>l. set (keys l)) ls"
      by simp
    with top show ?thesis
      by (cases rule: data) (simp_all add: sameKeys_def links toPBNode_def)
  qed
  from dec valid same keys show ?thesis
    by (auto simp: encode_def)
qed


lemma roundtrip:
  fixes CID :: "'c cid_class" and n :: "'c jsval"
  assumes "validate n = Inr ()" and "get n ''Links'' = JArray ls"
    and "\<forall>l \<in> set ls. \<forall>c. get l ''Hash'' = JCID c \<longrightarrow>
           CID_decode CID (CID_bytes CID c) = Inr c"
  shows "\<exists>bytes m. encode CID n = Inr bytes \<and> decode CID bytes = Inr m \<and> sameNode m n"
  using roundtrip_keys [OF assms] by blast

lemmas evaluation =
  validate_def validateLink_def pbNodeProperties_def pbLinkProperties_def
  encode_def toPBNode_def toPBLink_def encodeNode_def encodeLink_def lengthDelimited_def
  varintField_def tsizeToVarint_def textEncoder_encode_def demoCID_def
  decode_def decodeNode_def decodeLink_def decodeField_def takeBytes_def noLink_def
  fromPBLink_def varintToTsize_def textDecoder_decode_def
  Let_def encodeVarint.simps decodeFields.simps

text \<open>
  A property that holds \<^verbatim>\<open>undefined\<close> passes \<^verbatim>\<open>validate\<close> (line 156), is not written,
  and does not come back: the node returned reads the same and has one key less.
\<close>

lemma undefined_not_returned:
  "validate (JObject [(''Data'', JUndefined), (''Links'', JArray [])] :: byte list jsval) = Inr ()
   \<and> encode demoCID (JObject [(''Data'', JUndefined), (''Links'', JArray [])]) = Inr []
   \<and> decode demoCID [] = Inr (JObject [(''Links'', JArray [])])
   \<and> sameNode (JObject [(''Links'', JArray [])] :: byte list jsval)
        (JObject [(''Data'', JUndefined), (''Links'', JArray [])])
   \<and> \<not> sameKeys (JObject [(''Links'', JArray [])] :: byte list jsval)
        (JObject [(''Data'', JUndefined), (''Links'', JArray [])])"
  by (simp add: evaluation sameNode_def sameKeys_def)



text \<open>
  C6. A link whose \<^verbatim>\<open>Tsize\<close> is -5 is not refused for its \<^verbatim>\<open>Tsize\<close> by \<^verbatim>\<open>validate\<close>
  (first conjunct: the TypeError of line 187 is not thrown on it). A node with one such
  link, with or without a \<^verbatim>\<open>Name\<close>, passes \<^verbatim>\<open>validate\<close>, and what \<^verbatim>\<open>decode\<close>
  returns on the bytes \<^verbatim>\<open>encode\<close> gives for it is structurally equal to it, with one
  link whose \<^verbatim>\<open>Tsize\<close> is -5, where \<^verbatim>\<open>CID.decode\<close> reads the content identifier back
  from its bytes.
\<close>

theorem negative_tsize_passes:
  fixes CID :: "'c cid_class" and c :: 'c and l :: "'c jsval"
  shows
    "(get l ''Tsize'' = JNumber (Finite (- 5)) \<longrightarrow>
        validateLink l p \<noteq> Inl (TypeError ''Invalid DAG-PB form (link Tsize must be an integer)''))
     \<and> (name = [] \<or> (\<exists>s. name = [(''Name'', JString s)]) \<longrightarrow>
        CID_decode CID (CID_bytes CID c) = Inr c \<longrightarrow>
        validate (JObject [(''Links'', JArray
            [JObject ((''Hash'', JCID c) # name @ [(''Tsize'', JNumber (Finite (- 5)))])])])
          = Inr ()
        \<and> (\<exists>bytes m l'.
             encode CID (JObject [(''Links'', JArray
               [JObject ((''Hash'', JCID c) # name @ [(''Tsize'', JNumber (Finite (- 5)))])])])
               = Inr bytes
             \<and> decode CID bytes = Inr m
             \<and> sameNode m (JObject [(''Links'', JArray
                  [JObject ((''Hash'', JCID c) # name @ [(''Tsize'', JNumber (Finite (- 5)))])])])
             \<and> get m ''Links'' = JArray [l']
             \<and> get l' ''Tsize'' = JNumber (Finite (- 5))))"
proof (intro conjI impI)
  show "validateLink l p \<noteq> Inl (TypeError ''Invalid DAG-PB form (link Tsize must be an integer)'')"
    if "get l ''Tsize'' = JNumber (Finite (- 5))"
    using that by (simp add: validateLink_def)
next
  let ?l = "JObject ((''Hash'', JCID c) # name @ [(''Tsize'', JNumber (Finite (- 5)))])"
  let ?n = "JObject [(''Links'', JArray [?l])]"
  assume name: "name = [] \<or> (\<exists>s. name = [(''Name'', JString s)])"
    and cid: "CID_decode CID (CID_bytes CID c) = Inr c"
  from name have t: "get ?l ''Tsize'' = JNumber (Finite (- 5))" and h: "get ?l ''Hash'' = JCID c"
    by auto
  from name show v: "validate ?n = Inr ()"
    by (auto simp: validate_def validateLink_def pbNodeProperties_def pbLinkProperties_def)
  have "\<exists>bytes m. encode CID ?n = Inr bytes \<and> decode CID bytes = Inr m \<and> sameNode m ?n"
    using v cid h by (intro roundtrip [where ls = "[?l]"]) (simp_all del: get.simps, simp)
  then obtain bytes m where e: "encode CID ?n = Inr bytes" and d: "decode CID bytes = Inr m"
    and s: "sameNode m ?n" by blast
  from s obtain ms where ms: "get m ''Links'' = JArray ms" "map linkView ms = map linkView [?l]"
    by (auto simp: sameNode_def split: jsval.splits)
  then obtain l' where l': "ms = [l']" "linkView l' = linkView ?l"
    by auto
  with t have "get l' ''Tsize'' = JNumber (Finite (- 5))"
    by (simp add: linkView_def del: get.simps)
  with e d s ms l' show "\<exists>bytes m l'. encode CID ?n = Inr bytes \<and> decode CID bytes = Inr m
      \<and> sameNode m ?n \<and> get m ''Links'' = JArray [l'] \<and> get l' ''Tsize'' = JNumber (Finite (- 5))"
    by blast
qed

theorem negative_tsize_passes_witness:
  "validate (JObject [(''Links'', JArray
      [JObject [(''Hash'', JCID [1, 7 :: byte]), (''Name'', JString ''a''),
                (''Tsize'', JNumber (Finite (- 5)))]])]) = Inr ()
   \<and> encode demoCID (JObject [(''Links'', JArray
      [JObject [(''Hash'', JCID [1, 7]), (''Name'', JString ''a''),
                (''Tsize'', JNumber (Finite (- 5)))]])])
       = Inr [18, 9, 10, 2, 1, 7, 18, 1, 97, 24, 9]
   \<and> decode demoCID [18, 9, 10, 2, 1, 7, 18, 1, 97, 24, 9]
       = Inr (JObject [(''Links'', JArray
           [JObject [(''Hash'', JCID [1, 7]), (''Name'', JString ''a''),
                     (''Tsize'', JNumber (Finite (- 5)))]])])"
proof -
  have e: "encode demoCID (JObject [(''Links'', JArray
      [JObject [(''Hash'', JCID [1, 7]), (''Name'', JString ''a''),
                (''Tsize'', JNumber (Finite (- 5)))]])])
       = Inr [18, 9, 10, 2, 1, 7, 18, 1, 97, 24, 9]"
    by (simp add: evaluation)
  have d: "decode demoCID [18, 9, 10, 2, 1, 7, 18, 1, 97, 24, 9]
       = Inr (JObject [(''Links'', JArray
           [JObject [(''Hash'', JCID [1, 7]), (''Name'', JString ''a''),
                     (''Tsize'', JNumber (Finite (- 5)))]])])"
    by (simp add: evaluation char_of_eq_iff)
  show ?thesis
    using e d negative_tsize_passes [where CID = demoCID and c = "[1, 7]"
      and name = "[(''Name'', JString ''a'')]"]
    by (simp add: demoCID_def)
qed

section \<open>What decode returns\<close>

lemma fromPBLink_Inl: "fromPBLink CID l = Inl e \<Longrightarrow> e = invalidHash"
  by (auto simp: fromPBLink_def split: option.splits sum.splits)

lemma fromPBLink_Inr:
  assumes "fromPBLink CID l = Inr v"
  shows "\<exists>h c. pbl_Hash l = Some h \<and> CID_decode CID h = Inr c \<and> get v ''Hash'' = JCID c
           \<and> get v ''Name'' = (case pbl_Name l of None \<Rightarrow> JUndefined | Some s \<Rightarrow> JString s)
           \<and> get v ''Tsize'' =
               (case pbl_Tsize l of None \<Rightarrow> JUndefined | Some t \<Rightarrow> JNumber (Finite (of_int t)))"
  using assms
  by (cases "pbl_Name l"; cases "pbl_Tsize l")
     (auto simp: fromPBLink_def split: option.splits sum.splits)

lemma fromPBLink_no_Hash: "pbl_Hash l = None \<Longrightarrow> fromPBLink CID l = Inl invalidHash"
  by (simp add: fromPBLink_def)

lemma fromPBLink_bad_Hash:
  "pbl_Hash l = Some h \<Longrightarrow> CID_decode CID h = Inl m \<Longrightarrow> fromPBLink CID l = Inl invalidHash"
  by (simp add: fromPBLink_def)

lemma decode_link_failure:
  assumes "decodeNode bytes = Some pbn" and "l \<in> set (pbn_Links pbn)"
    and "fromPBLink CID l = Inl invalidHash"
  shows "decode CID bytes = Inl invalidHash"
proof -
  from mapE_failure [of l "pbn_Links pbn" "fromPBLink CID" invalidHash] assms(2,3)
  obtain e' l' where "fromPBLink CID l' = Inl e'" "mapE (fromPBLink CID) (pbn_Links pbn) = Inl e'"
    by blast
  moreover from this have "e' = invalidHash"
    by (auto dest: fromPBLink_Inl)
  ultimately show ?thesis
    using assms(1) by (simp add: decode_def)
qed

lemma decode_Inr:
  assumes "decode CID bytes = Inr m"
  shows "\<exists>pbn ls. decodeNode bytes = Some pbn \<and> get m ''Links'' = JArray ls
           \<and> get m ''Data'' = (case pbn_Data pbn of None \<Rightarrow> JUndefined | Some d \<Rightarrow> JUint8Array d)
           \<and> mapE (fromPBLink CID) (pbn_Links pbn) = Inr ls"
  using assms
  by (cases "decodeNode bytes")
     (auto simp: decode_def split: sum.splits option.splits)

text \<open>
  C8. Where the bytes hold a link whose \<^verbatim>\<open>Hash\<close> bytes \<^verbatim>\<open>CID.decode\<close> refuses,
  \<^verbatim>\<open>decode\<close> throws the Error of line 244. Where \<^verbatim>\<open>decode\<close> returns a node, every
  link of the message is in it, in order, with the content identifier its \<^verbatim>\<open>Hash\<close>
  bytes decode to and the \<^verbatim>\<open>Name\<close> and \<^verbatim>\<open>Tsize\<close> of the message. Where the bytes
  are no message, \<^verbatim>\<open>decode\<close> throws. It returns a node or throws, never both.
\<close>

theorem decode_rejects_bad_hash:
  fixes CID :: "'c cid_class" and m :: "'c jsval"
  shows
    "(decodeNode bytes = Some pbn \<and> l \<in> set (pbn_Links pbn) \<and> pbl_Hash l = Some h
        \<and> CID_decode CID h = Inl msg \<longrightarrow>
        decode CID bytes = Inl invalidHash)
     \<and> (decode CID bytes = Inr m \<longrightarrow>
          (\<exists>node ls. decodeNode bytes = Some node \<and> get m ''Links'' = JArray ls
             \<and> length ls = length (pbn_Links node)
             \<and> (\<forall>i < length ls. \<exists>h c.
                   pbl_Hash (pbn_Links node ! i) = Some h \<and> CID_decode CID h = Inr c
                   \<and> get (ls ! i) ''Hash'' = JCID c
                   \<and> get (ls ! i) ''Name'' =
                       (case pbl_Name (pbn_Links node ! i) of
                          None \<Rightarrow> JUndefined | Some s \<Rightarrow> JString s)
                   \<and> get (ls ! i) ''Tsize'' =
                       (case pbl_Tsize (pbn_Links node ! i) of
                          None \<Rightarrow> JUndefined | Some t \<Rightarrow> JNumber (Finite (of_int t))))))
     \<and> (decodeNode bytes = None \<longrightarrow> decode CID bytes = Inl wireError)"
proof (intro conjI impI)
  assume "decodeNode bytes = Some pbn \<and> l \<in> set (pbn_Links pbn) \<and> pbl_Hash l = Some h
        \<and> CID_decode CID h = Inl msg"
  then show "decode CID bytes = Inl invalidHash"
    using decode_link_failure [of bytes pbn l CID] fromPBLink_bad_Hash [of l h CID msg]
    by blast
next
  assume "decode CID bytes = Inr m"
  from decode_Inr [OF this] obtain node ls where node: "decodeNode bytes = Some node"
    and ls: "get m ''Links'' = JArray ls"
    and all: "mapE (fromPBLink CID) (pbn_Links node) = Inr ls"
    by blast
  from mapE_success [OF all] have len: "length ls = length (pbn_Links node)"
    and each: "\<forall>i < length (pbn_Links node). fromPBLink CID (pbn_Links node ! i) = Inr (ls ! i)"
    by simp_all
  have "\<exists>h c. pbl_Hash (pbn_Links node ! i) = Some h \<and> CID_decode CID h = Inr c
           \<and> get (ls ! i) ''Hash'' = JCID c
           \<and> get (ls ! i) ''Name'' =
               (case pbl_Name (pbn_Links node ! i) of None \<Rightarrow> JUndefined | Some s \<Rightarrow> JString s)
           \<and> get (ls ! i) ''Tsize'' =
               (case pbl_Tsize (pbn_Links node ! i) of
                  None \<Rightarrow> JUndefined | Some t \<Rightarrow> JNumber (Finite (of_int t)))"
    if "i < length ls" for i
    using that len each by (intro fromPBLink_Inr) simp
  with node ls len show "\<exists>node ls. decodeNode bytes = Some node \<and> get m ''Links'' = JArray ls
             \<and> length ls = length (pbn_Links node)
             \<and> (\<forall>i < length ls. \<exists>h c.
                   pbl_Hash (pbn_Links node ! i) = Some h \<and> CID_decode CID h = Inr c
                   \<and> get (ls ! i) ''Hash'' = JCID c
                   \<and> get (ls ! i) ''Name'' =
                       (case pbl_Name (pbn_Links node ! i) of
                          None \<Rightarrow> JUndefined | Some s \<Rightarrow> JString s)
                   \<and> get (ls ! i) ''Tsize'' =
                       (case pbl_Tsize (pbn_Links node ! i) of
                          None \<Rightarrow> JUndefined | Some t \<Rightarrow> JNumber (Finite (of_int t))))"
    by blast
next
  assume "decodeNode bytes = None"
  then show "decode CID bytes = Inl wireError"
    by (simp add: decode_def)
qed

lemma decodeNode_bad_hash_bytes:
  "decodeNode [18, 9, 10, 2, 1, 7, 18, 1, 97, 24, 5, 18, 5, 10, 1, 0, 24, 9] =
     Some \<lparr>pbn_Data = None, pbn_Links =
       [\<lparr>pbl_Hash = Some [1, 7], pbl_Name = Some ''a'', pbl_Tsize = Some (- 3)\<rparr>,
        \<lparr>pbl_Hash = Some [0], pbl_Name = None, pbl_Tsize = Some (- 5)\<rparr>]\<rparr>"
  by (simp add: evaluation char_of_eq_iff)

theorem decode_rejects_bad_hash_witness:
  "decode demoCID [18, 9, 10, 2, 1, 7, 18, 1, 97, 24, 5, 18, 5, 10, 1, 0, 24, 9]
     = Inl invalidHash
   \<and> decode demoCID [18, 1] = Inl wireError"
proof -
  have "decodeNode [18, 1] = None"
    by (simp add: evaluation)
  then show ?thesis
    using decodeNode_bad_hash_bytes
      decode_rejects_bad_hash [where CID = demoCID
        and bytes = "[18, 9, 10, 2, 1, 7, 18, 1, 97, 24, 5, 18, 5, 10, 1, 0, 24, 9]"
        and pbn = "\<lparr>pbn_Data = None, pbn_Links =
           [\<lparr>pbl_Hash = Some [1, 7], pbl_Name = Some ''a'', pbl_Tsize = Some (- 3)\<rparr>,
            \<lparr>pbl_Hash = Some [0], pbl_Name = None, pbl_Tsize = Some (- 5)\<rparr>]\<rparr>"
        and l = "\<lparr>pbl_Hash = Some [0], pbl_Name = None, pbl_Tsize = Some (- 5)\<rparr>"
        and h = "[0]" and msg = "''Invalid CID version''"]
      decode_rejects_bad_hash [where CID = demoCID and bytes = "[18, 1]"]
    by (simp add: demoCID_def)
qed

text \<open>
  C9. Where the bytes hold a link with no \<^verbatim>\<open>Hash\<close> field, \<^verbatim>\<open>decode\<close> throws the Error
  of line 244: the field is optional on the wire, and every link of a node that
  \<^verbatim>\<open>decode\<close> returns has a content identifier as its \<^verbatim>\<open>Hash\<close>.
\<close>

theorem decode_requires_hash:
  fixes CID :: "'c cid_class" and m :: "'c jsval"
  shows
    "(decodeNode bytes = Some pbn \<and> l \<in> set (pbn_Links pbn) \<and> pbl_Hash l = None \<longrightarrow>
        decode CID bytes = Inl invalidHash)
     \<and> (decode CID bytes = Inr m \<longrightarrow>
          (\<exists>ls. get m ''Links'' = JArray ls \<and> (\<forall>v \<in> set ls. \<exists>c. get v ''Hash'' = JCID c)))"
proof (intro conjI impI)
  assume "decodeNode bytes = Some pbn \<and> l \<in> set (pbn_Links pbn) \<and> pbl_Hash l = None"
  then show "decode CID bytes = Inl invalidHash"
    using decode_link_failure [of bytes pbn l CID] fromPBLink_no_Hash [of l CID]
    by blast
next
  assume "decode CID bytes = Inr m"
  from decode_Inr [OF this] obtain node :: pbnode and ls
    where ls: "get m ''Links'' = JArray ls"
      and all: "mapE (fromPBLink CID) (pbn_Links node) = Inr ls"
    by blast
  have "\<exists>c. get v ''Hash'' = JCID c" if "v \<in> set ls" for v
  proof -
    from that obtain i where "i < length ls" "v = ls ! i"
      by (auto simp: in_set_conv_nth)
    with mapE_success [OF all] have "fromPBLink CID (pbn_Links node ! i) = Inr v"
      by simp
    from fromPBLink_Inr [OF this] show ?thesis by blast
  qed
  with ls show "\<exists>ls. get m ''Links'' = JArray ls \<and> (\<forall>v \<in> set ls. \<exists>c. get v ''Hash'' = JCID c)"
    by blast
qed

lemma decodeNode_no_hash_bytes:
  "decodeNode [18, 3, 18, 1, 97] =
     Some \<lparr>pbn_Data = None, pbn_Links =
       [\<lparr>pbl_Hash = None, pbl_Name = Some ''a'', pbl_Tsize = None\<rparr>]\<rparr>"
  by (simp add: evaluation char_of_eq_iff)

theorem decode_requires_hash_witness:
  "decode demoCID [18, 3, 18, 1, 97] = Inl invalidHash"
  using decodeNode_no_hash_bytes
    decode_requires_hash [where CID = demoCID and bytes = "[18, 3, 18, 1, 97]"
      and pbn = "\<lparr>pbn_Data = None, pbn_Links =
         [\<lparr>pbl_Hash = None, pbl_Name = Some ''a'', pbl_Tsize = None\<rparr>]\<rparr>"
      and l = "\<lparr>pbl_Hash = None, pbl_Name = Some ''a'', pbl_Tsize = None\<rparr>"]
  by simp

end
